theory Spec2Isabelle
  imports Complex_Main
begin

section \<open>Bayesian linear regression example: tensors, model, dataset, progress output\<close>

text \<open>
  The development embeds \<^verbatim>\<open>examples/bayesian_linear_regression.py\<close>.
  Tensors of TensorFlow and arrays of NumPy are a shape together with the elements in
  row-major order. The 32-bit and 64-bit floating-point numbers of the program are
  idealised as real numbers: the statements about shapes, exceptions and formulas are
  about the exact arithmetic of the formulas the program evaluates, not about rounding,
  overflow or NaN. The one statement that rounding decides, the order of the log-prior
  terms of two prior variances, is made on the float32 arithmetic itself.
  Every exception the program can raise is a value \<open>Inl e\<close> of a result type.
\<close>

subsection \<open>Errors\<close>

datatype error = IndexError | ValueError | NotImplementedError | ZeroDivisionError

text \<open>Python list indexing \<^verbatim>\<open>xs[i]\<close>: a negative index counts from the end.\<close>

definition py_getitem :: "'a list \<Rightarrow> int \<Rightarrow> error + 'a" where
  "py_getitem xs i =
     (if 0 \<le> i \<and> i < int (length xs) then Inr (xs ! nat i)
      else if i < 0 \<and> - int (length xs) \<le> i then Inr (xs ! nat (int (length xs) + i))
      else Inl IndexError)"

text \<open>A list comprehension whose body can raise: the first exception ends it.\<close>

fun collect :: "(error + 'a) list \<Rightarrow> error + 'a list" where
  "collect [] = Inr []"
| "collect (r # rs) =
     (case r of
        Inl e \<Rightarrow> Inl e
      | Inr v \<Rightarrow> (case collect rs of Inl e \<Rightarrow> Inl e | Inr vs \<Rightarrow> Inr (v # vs)))"

subsection \<open>Tensors\<close>

record tensor =
  shape :: "nat list"
  elems :: "real list"

definition wf_tensor :: "tensor \<Rightarrow> bool" where
  "wf_tensor t = (length (elems t) = prod_list (shape t))"

text \<open>The elements of a matrix with \<open>r\<close> rows and \<open>c\<close> columns, from its entries.\<close>

definition row_major :: "nat \<Rightarrow> nat \<Rightarrow> (nat \<Rightarrow> nat \<Rightarrow> real) \<Rightarrow> real list" where
  "row_major r c f = concat (map (\<lambda>i. map (\<lambda>j. f i j) [0..<c]) [0..<r])"

text \<open>
  \<^verbatim>\<open>z[:k]\<close> and \<^verbatim>\<open>z[k:]\<close> on a tensor. TensorFlow's slice helper refuses
  negative bounds (NotImplementedError), needs one slice per dimension, and the slice
  operation refuses bounds beyond the dimension.
\<close>

definition tf_slice_to :: "tensor \<Rightarrow> int \<Rightarrow> error + tensor" where
  "tf_slice_to z k =
     (if k < 0 then Inl NotImplementedError
      else case shape z of
        [d] \<Rightarrow> if nat k \<le> d then Inr \<lparr>shape = [nat k], elems = take (nat k) (elems z)\<rparr>
               else Inl ValueError
      | _ \<Rightarrow> Inl ValueError)"

definition tf_slice_from :: "tensor \<Rightarrow> int \<Rightarrow> error + tensor" where
  "tf_slice_from z k =
     (if k < 0 then Inl NotImplementedError
      else case shape z of
        [d] \<Rightarrow> if nat k \<le> d then Inr \<lparr>shape = [d - nat k], elems = drop (nat k) (elems z)\<rparr>
               else Inl ValueError
      | _ \<Rightarrow> Inl ValueError)"

text \<open>\<^verbatim>\<open>xs[:, 0]\<close>: column 0 of a matrix, as a vector.\<close>

definition tf_col0 :: "tensor \<Rightarrow> error + tensor" where
  "tf_col0 xs =
     (case shape xs of
        [r, c] \<Rightarrow> if 0 < c then Inr \<lparr>shape = [r], elems = map (\<lambda>i. elems xs ! (i * c)) [0..<r]\<rparr>
                  else Inl ValueError
      | _ \<Rightarrow> Inl ValueError)"

text \<open>\<^verbatim>\<open>xs[:, 1:]\<close>: the matrix without its column 0.\<close>

definition tf_cols_from1 :: "tensor \<Rightarrow> error + tensor" where
  "tf_cols_from1 xs =
     (case shape xs of
        [r, c] \<Rightarrow> if 1 \<le> c
                  then Inr \<lparr>shape = [r, c - 1],
                            elems = row_major r (c - 1) (\<lambda>i j. elems xs ! (i * c + (j + 1)))\<rparr>
                  else Inl ValueError
      | _ \<Rightarrow> Inl ValueError)"

text \<open>
  \<^verbatim>\<open>tf.reshape(t, dims)\<close> for a list of Python integers. A dimension of -1 asks
  TensorFlow to infer it; the program passes the two weight dimensions only, and a
  negative one among them is refused here.
\<close>

definition tf_reshape :: "tensor \<Rightarrow> int list \<Rightarrow> error + tensor" where
  "tf_reshape t dims =
     (if list_ex (\<lambda>d. d < 0) dims then Inl ValueError
      else if prod_list (map nat dims) = prod_list (shape t)
      then Inr \<lparr>shape = map nat dims, elems = elems t\<rparr>
      else Inl ValueError)"

text \<open>\<^verbatim>\<open>tf.matmul(a, b)\<close>: both arguments are matrices, the inner dimensions agree.\<close>

definition tf_matmul :: "tensor \<Rightarrow> tensor \<Rightarrow> error + tensor" where
  "tf_matmul a b =
     (case shape a of
        [k, m] \<Rightarrow>
          (case shape b of
             [m', n] \<Rightarrow>
               if m = m'
               then Inr \<lparr>shape = [k, n],
                         elems = row_major k n
                           (\<lambda>i j. \<Sum>l\<leftarrow>[0..<m]. elems a ! (i * m + l) * elems b ! (l * n + j))\<rparr>
               else Inl ValueError
           | _ \<Rightarrow> Inl ValueError)
      | _ \<Rightarrow> Inl ValueError)"

text \<open>
  Broadcasting of two shapes, aligned at the last dimension: two dimensions are
  compatible when they are equal or one of them is 1.
\<close>

fun bshape_rev :: "nat list \<Rightarrow> nat list \<Rightarrow> nat list option" where
  "bshape_rev [] ys = Some ys"
| "bshape_rev (x # xs) [] = Some (x # xs)"
| "bshape_rev (x # xs) (y # ys) =
     (if x = y \<or> y = 1 then map_option ((#) x) (bshape_rev xs ys)
      else if x = 1 then map_option ((#) y) (bshape_rev xs ys)
      else None)"

definition bshape :: "nat list \<Rightarrow> nat list \<Rightarrow> nat list option" where
  "bshape s1 s2 = map_option rev (bshape_rev (rev s1) (rev s2))"

text \<open>The multi-index of the \<open>p\<close>-th element of a tensor, and back.\<close>

fun unravel :: "nat list \<Rightarrow> nat \<Rightarrow> nat list" where
  "unravel [] p = []"
| "unravel (d # ds) p = (p div prod_list ds) # unravel ds (p mod prod_list ds)"

fun ravel :: "nat list \<Rightarrow> nat list \<Rightarrow> nat" where
  "ravel (d # ds) (i # is) = i * prod_list ds + ravel ds is"
| "ravel _ _ = 0"

text \<open>
  The position, in a tensor of shape \<open>s\<close>, of the element that broadcasting puts at
  position \<open>p\<close> of the result of shape \<open>S\<close>: missing leading dimensions count as 1, and
  a dimension of size 1 is read at index 0.
\<close>

definition bsrc :: "nat list \<Rightarrow> nat list \<Rightarrow> nat \<Rightarrow> nat" where
  "bsrc S s p =
     (let s' = replicate (length S - length s) 1 @ s
      in ravel s' (map2 (\<lambda>d i. if d = 1 then 0 else i) s' (unravel S p)))"

definition tf_binop :: "(real \<Rightarrow> real \<Rightarrow> real) \<Rightarrow> tensor \<Rightarrow> tensor \<Rightarrow> error + tensor" where
  "tf_binop f a b =
     (case bshape (shape a) (shape b) of
        None \<Rightarrow> Inl ValueError
      | Some S \<Rightarrow>
          Inr \<lparr>shape = S,
               elems = map (\<lambda>p. f (elems a ! bsrc S (shape a) p) (elems b ! bsrc S (shape b) p))
                         [0..<prod_list S]\<rparr>)"

definition tf_add :: "tensor \<Rightarrow> tensor \<Rightarrow> error + tensor" where
  "tf_add = tf_binop (+)"

definition tf_sub :: "tensor \<Rightarrow> tensor \<Rightarrow> error + tensor" where
  "tf_sub = tf_binop (-)"

definition tf_mul :: "tensor \<Rightarrow> tensor \<Rightarrow> error + tensor" where
  "tf_mul = tf_binop (*)"

text \<open>\<^verbatim>\<open>tf.squeeze(t)\<close> with no dimensions given: every dimension of size 1 goes.\<close>

definition tf_squeeze :: "tensor \<Rightarrow> tensor" where
  "tf_squeeze t = \<lparr>shape = filter (\<lambda>d. d \<noteq> 1) (shape t), elems = elems t\<rparr>"

text \<open>\<^verbatim>\<open>tf.pack(ts)\<close>: a non-empty list of tensors of one shape, stacked.\<close>

definition tf_pack :: "tensor list \<Rightarrow> error + tensor" where
  "tf_pack ts =
     (case ts of
        [] \<Rightarrow> Inl ValueError
      | t # rest \<Rightarrow>
          if list_all (\<lambda>u. shape u = shape t) rest
          then Inr \<lparr>shape = length ts # shape t, elems = concat (map elems ts)\<rparr>
          else Inl ValueError)"

text \<open>\<^verbatim>\<open>tf.unpack(t)\<close>: the slices of a tensor along its first dimension.\<close>

definition tf_unpack :: "tensor \<Rightarrow> error + tensor list" where
  "tf_unpack t =
     (case shape t of
        [] \<Rightarrow> Inl ValueError
      | d # ds \<Rightarrow>
          Inr (map (\<lambda>i. \<lparr>shape = ds,
                          elems = take (prod_list ds) (drop (i * prod_list ds) (elems t))\<rparr>)
                 [0..<d]))"

text \<open>
  \<^verbatim>\<open>tf.reduce_sum(t, 1)\<close>: the sum along dimension 1, which the tensor must have.
\<close>

definition tf_reduce_sum1 :: "tensor \<Rightarrow> error + tensor" where
  "tf_reduce_sum1 t =
     (case shape t of
        d0 # d1 # rest \<Rightarrow>
          Inr \<lparr>shape = d0 # rest,
               elems = row_major d0 (prod_list rest)
                 (\<lambda>i r. \<Sum>j\<leftarrow>[0..<d1]. elems t ! ((i * d1 + j) * prod_list rest + r))\<rparr>
      | _ \<Rightarrow> Inl ValueError)"

text \<open>Element-wise operations with a Python number.\<close>

definition tf_map :: "(real \<Rightarrow> real) \<Rightarrow> tensor \<Rightarrow> tensor" where
  "tf_map f t = \<lparr>shape = shape t, elems = map f (elems t)\<rparr>"

subsection \<open>LinearModel\<close>

record LinearModel =
  weight_dim :: "int list"
  lik_variance :: real
  prior_variance :: real
  num_vars :: int

text \<open>
  \<^verbatim>\<open>LinearModel.__init__(self, weight_dim, lik_variance=0.01, prior_variance=0.01)\<close>.
\<close>

definition LinearModel_init :: "int list \<Rightarrow> real \<Rightarrow> real \<Rightarrow> error + LinearModel" where
  "LinearModel_init wd lv pv =
     (case py_getitem wd 0 of
        Inl e \<Rightarrow> Inl e
      | Inr w0 \<Rightarrow>
          (case py_getitem wd 1 of
             Inl e \<Rightarrow> Inl e
           | Inr w1 \<Rightarrow>
               Inr \<lparr>weight_dim = wd, lik_variance = lv, prior_variance = pv,
                    num_vars = (w0 + 1) * w1\<rparr>))"

text \<open>\<^verbatim>\<open>LinearModel.mapping(self, x, z)\<close>: the linear transformation \<open>x W + b\<close>.\<close>

definition mapping :: "LinearModel \<Rightarrow> tensor \<Rightarrow> tensor \<Rightarrow> error + tensor" where
  "mapping M x z =
     (case py_getitem (weight_dim M) 0 of
        Inl e \<Rightarrow> Inl e
      | Inr m \<Rightarrow>
     (case py_getitem (weight_dim M) 1 of
        Inl e \<Rightarrow> Inl e
      | Inr n \<Rightarrow>
     (case tf_slice_to z (m * n) of
        Inl e \<Rightarrow> Inl e
      | Inr zW \<Rightarrow>
     (case tf_reshape zW [m, n] of
        Inl e \<Rightarrow> Inl e
      | Inr W \<Rightarrow>
     (case tf_slice_from z (m * n) of
        Inl e \<Rightarrow> Inl e
      | Inr zb \<Rightarrow>
     (case tf_reshape zb [1, n] of
        Inl e \<Rightarrow> Inl e
      | Inr b \<Rightarrow>
     (case tf_matmul x W of
        Inl e \<Rightarrow> Inl e
      | Inr xW \<Rightarrow>
     (case tf_add xW b of
        Inl e \<Rightarrow> Inl e
      | Inr h \<Rightarrow> Inr (tf_squeeze h)))))))))"

text \<open>
  The local \<^verbatim>\<open>log_prior\<close> of \<^verbatim>\<open>log_prob\<close>, in exact arithmetic:
  \<^verbatim>\<open>-self.prior_variance * tf.reduce_sum(zs*zs, 1)\<close>. Its shape and its exceptions
  are those of the float32 computation, which is \<open>log_prior32\<close> below.
\<close>

definition log_prior :: "LinearModel \<Rightarrow> tensor \<Rightarrow> error + tensor" where
  "log_prior M zs =
     (case tf_mul zs zs of
        Inl e \<Rightarrow> Inl e
      | Inr zz \<Rightarrow>
     (case tf_reduce_sum1 zz of
        Inl e \<Rightarrow> Inl e
      | Inr s \<Rightarrow> Inr (tf_map (\<lambda>v. - prior_variance M * v) s)))"

text \<open>
  The local \<^verbatim>\<open>log_lik\<close> of \<^verbatim>\<open>log_prob\<close>, from \<^verbatim>\<open>mus\<close> and \<^verbatim>\<open>y\<close>:
  \<^verbatim>\<open>-tf.reduce_sum(tf.pow(mus - y, 2), 1) / self.lik_variance\<close>.
\<close>

definition log_lik :: "LinearModel \<Rightarrow> tensor \<Rightarrow> tensor \<Rightarrow> error + tensor" where
  "log_lik M mus y =
     (case tf_sub mus y of
        Inl e \<Rightarrow> Inl e
      | Inr d \<Rightarrow>
     (case tf_reduce_sum1 (tf_map (\<lambda>v. v ^ 2) d) of
        Inl e \<Rightarrow> Inl e
      | Inr s \<Rightarrow> Inr (tf_map (\<lambda>v. (- v) / lik_variance M) s)))"

text \<open>\<^verbatim>\<open>LinearModel.log_prob(self, xs, zs)\<close>: the unnormalized log joint density.\<close>

definition log_prob :: "LinearModel \<Rightarrow> tensor \<Rightarrow> tensor \<Rightarrow> error + tensor" where
  "log_prob M xs zs =
     (case tf_col0 xs of
        Inl e \<Rightarrow> Inl e
      | Inr y \<Rightarrow>
     (case tf_cols_from1 xs of
        Inl e \<Rightarrow> Inl e
      | Inr x \<Rightarrow>
     (case log_prior M zs of
        Inl e \<Rightarrow> Inl e
      | Inr lp \<Rightarrow>
     (case tf_unpack zs of
        Inl e \<Rightarrow> Inl e
      | Inr zl \<Rightarrow>
     (case collect (map (mapping M x) zl) of
        Inl e \<Rightarrow> Inl e
      | Inr ml \<Rightarrow>
     (case tf_pack ml of
        Inl e \<Rightarrow> Inl e
      | Inr mus \<Rightarrow>
     (case log_lik M mus y of
        Inl e \<Rightarrow> Inl e
      | Inr ll \<Rightarrow> tf_add ll lp)))))))"

subsection \<open>The log prior in float32 arithmetic\<close>

text \<open>
  The tensors that the inference passes to \<^verbatim>\<open>log_prob\<close> hold 32-bit floating-point
  numbers, and line 78 computes with them: each product and each sum is rounded to the
  nearest float32, and \<^verbatim>\<open>-self.prior_variance\<close> is converted to a float32 before
  it is multiplied. A float32 is a real number, an infinity, or not a number. The two
  zeros are one value here: they compare equal.
\<close>

datatype f32 = NaN | NInf | Fin real | PInf

text \<open>Rounding to the nearest integer, a tie to the even one.\<close>

definition rhe :: "real \<Rightarrow> int" where
  "rhe x =
     (let f = \<lfloor>x\<rfloor>; d = x - of_int f
      in if d < 1 / 2 then f else if 1 / 2 < d then f + 1 else if even f then f else f + 1)"

text \<open>
  The binary exponent of a non-negative number, from the smallest one of the format
  (-126, which the subnormal numbers share) upwards: the first \<open>e\<close> with \<open>x < 2 ^ (e + 1)\<close>.
\<close>

fun expo_from :: "nat \<Rightarrow> int \<Rightarrow> real \<Rightarrow> int" where
  "expo_from 0 e x = e"
| "expo_from (Suc k) e x = (if x < 2 powi (e + 1) then e else expo_from k (e + 1) x)"

definition expo :: "real \<Rightarrow> int" where
  "expo x = expo_from 254 (- 126) x"

text \<open>
  Rounding to 24 significant bits: the nearest multiple of \<open>2 ^ (e - 23)\<close>, a tie to the
  even one. A result of magnitude \<open>2 ^ 128\<close> or more is an infinity.
\<close>

definition rnd_pos :: "real \<Rightarrow> real" where
  "rnd_pos x = of_int (rhe (x / 2 powi (expo x - 23))) * 2 powi (expo x - 23)"

definition rnd :: "real \<Rightarrow> real" where
  "rnd x = (if x < 0 then - rnd_pos (- x) else rnd_pos x)"

definition f32_round :: "real \<Rightarrow> f32" where
  "f32_round x =
     (let r = rnd x
      in if 2 ^ 128 \<le> r then PInf else if r \<le> - (2 ^ 128) then NInf else Fin r)"

text \<open>The comparisons \<^verbatim>\<open><=\<close> and \<^verbatim>\<open><\<close>: what is not a number compares false.\<close>

fun f32_le :: "f32 \<Rightarrow> f32 \<Rightarrow> bool" where
  "f32_le NaN _ = False"
| "f32_le _ NaN = False"
| "f32_le NInf _ = True"
| "f32_le _ PInf = True"
| "f32_le (Fin a) (Fin b) = (a \<le> b)"
| "f32_le _ _ = False"

definition f32_lt :: "f32 \<Rightarrow> f32 \<Rightarrow> bool" where
  "f32_lt a b = (f32_le a b \<and> \<not> f32_le b a)"

text \<open>Products and sums of float32 numbers.\<close>

fun f32_sign :: "f32 \<Rightarrow> int" where
  "f32_sign NaN = 0"
| "f32_sign NInf = - 1"
| "f32_sign PInf = 1"
| "f32_sign (Fin a) = (if a < 0 then - 1 else if 0 < a then 1 else 0)"

fun f32_mul :: "f32 \<Rightarrow> f32 \<Rightarrow> f32" where
  "f32_mul NaN _ = NaN"
| "f32_mul _ NaN = NaN"
| "f32_mul (Fin a) (Fin b) = f32_round (a * b)"
| "f32_mul a b =
     (if f32_sign a = 0 \<or> f32_sign b = 0 then NaN
      else if f32_sign a = f32_sign b then PInf else NInf)"

fun f32_add :: "f32 \<Rightarrow> f32 \<Rightarrow> f32" where
  "f32_add NaN _ = NaN"
| "f32_add _ NaN = NaN"
| "f32_add (Fin a) (Fin b) = f32_round (a + b)"
| "f32_add PInf NInf = NaN"
| "f32_add NInf PInf = NaN"
| "f32_add PInf _ = PInf"
| "f32_add _ PInf = PInf"
| "f32_add _ _ = NInf"

text \<open>A sum from the left, from 0.\<close>

definition f32_sum :: "f32 list \<Rightarrow> f32" where
  "f32_sum xs = foldl f32_add (Fin 0) xs"

text \<open>Float32 tensors and the operations of line 78 on them.\<close>

record tensor32 =
  shape32 :: "nat list"
  elems32 :: "f32 list"

definition tf_binop32 :: "(f32 \<Rightarrow> f32 \<Rightarrow> f32) \<Rightarrow> tensor32 \<Rightarrow> tensor32 \<Rightarrow> error + tensor32" where
  "tf_binop32 f a b =
     (case bshape (shape32 a) (shape32 b) of
        None \<Rightarrow> Inl ValueError
      | Some S \<Rightarrow>
          Inr \<lparr>shape32 = S,
               elems32 = map (\<lambda>p. f (elems32 a ! bsrc S (shape32 a) p)
                                     (elems32 b ! bsrc S (shape32 b) p))
                           [0..<prod_list S]\<rparr>)"

definition tf_reduce_sum1_32 :: "tensor32 \<Rightarrow> error + tensor32" where
  "tf_reduce_sum1_32 t =
     (case shape32 t of
        d0 # d1 # rest \<Rightarrow>
          Inr \<lparr>shape32 = d0 # rest,
               elems32 = concat (map (\<lambda>i. map (\<lambda>r. f32_sum (map (\<lambda>j.
                   elems32 t ! ((i * d1 + j) * prod_list rest + r)) [0..<d1]))
                 [0..<prod_list rest]) [0..<d0])\<rparr>
      | _ \<Rightarrow> Inl ValueError)"

text \<open>
  The local \<^verbatim>\<open>log_prior\<close> of \<^verbatim>\<open>log_prob\<close> in float32:
  \<^verbatim>\<open>-self.prior_variance * tf.reduce_sum(zs*zs, 1)\<close>.
\<close>

definition log_prior32 :: "LinearModel \<Rightarrow> tensor32 \<Rightarrow> error + tensor32" where
  "log_prior32 M zs =
     (case tf_binop32 f32_mul zs zs of
        Inl e \<Rightarrow> Inl e
      | Inr zz \<Rightarrow>
     (case tf_reduce_sum1_32 zz of
        Inl e \<Rightarrow> Inl e
      | Inr s \<Rightarrow>
          Inr \<lparr>shape32 = shape32 s,
               elems32 = map (f32_mul (f32_round (- prior_variance M))) (elems32 s)\<rparr>))"

text \<open>The float32 sum of the squares of row \<open>i\<close> of a matrix.\<close>

definition row_sumsq32 :: "tensor32 \<Rightarrow> nat \<Rightarrow> f32" where
  "row_sumsq32 zs i =
     f32_sum (map (\<lambda>l. f32_mul (elems32 zs ! (i * (shape32 zs ! 1) + l))
                             (elems32 zs ! (i * (shape32 zs ! 1) + l)))
                [0..<shape32 zs ! 1])"

subsection \<open>The random number generator\<close>

text \<open>
  Modelled from the spec: \<^verbatim>\<open>ed.set_seed\<close> and \<^verbatim>\<open>edward.stats.norm.rvs\<close> are
  not among the sources. The generator is global state that a seed determines: its state
  is the seed and the number of variates drawn since. The stream of standard normal
  variates that a seed gives is the parameter \<open>gauss\<close>.
\<close>

record rng =
  seed :: int
  drawn :: nat

definition set_seed :: "int \<Rightarrow> rng \<Rightarrow> rng" where
  "set_seed x g = \<lparr>seed = x, drawn = 0\<rparr>"

definition norm_rvs ::
    "(int \<Rightarrow> nat \<Rightarrow> real) \<Rightarrow> real \<Rightarrow> real \<Rightarrow> int \<Rightarrow> rng \<Rightarrow> (error + tensor) \<times> rng" where
  "norm_rvs gauss loc scale count g =
     (if scale < 0 \<or> count < 0 then (Inl ValueError, g)
      else (Inr \<lparr>shape = [nat count],
                 elems = map (\<lambda>j. loc + scale * gauss (seed g) (drawn g + j)) [0..<nat count]\<rparr>,
            g\<lparr>drawn := drawn g + nat count\<rparr>))"

subsection \<open>NumPy operations of the dataset generator\<close>

text \<open>\<^verbatim>\<open>np.linspace(a, b, num=num)\<close>, the end point included.\<close>

definition np_linspace :: "real \<Rightarrow> real \<Rightarrow> int \<Rightarrow> error + tensor" where
  "np_linspace a b num =
     (if num < 0 then Inl ValueError
      else Inr \<lparr>shape = [nat num],
                elems = map (\<lambda>i. if num = 1 then a
                                 else a + real i * ((b - a) / real (nat num - 1)))
                          [0..<nat num]\<rparr>)"

text \<open>\<^verbatim>\<open>np.concatenate([a, b])\<close> of two vectors.\<close>

definition np_concatenate :: "tensor \<Rightarrow> tensor \<Rightarrow> error + tensor" where
  "np_concatenate a b =
     (case (shape a, shape b) of
        ([m], [n]) \<Rightarrow> Inr \<lparr>shape = [m + n], elems = elems a @ elems b\<rparr>
      | _ \<Rightarrow> Inl ValueError)"

text \<open>The sum of two arrays, with broadcasting.\<close>

definition np_add :: "tensor \<Rightarrow> tensor \<Rightarrow> error + tensor" where
  "np_add = tf_binop (+)"

text \<open>\<^verbatim>\<open>a.reshape(dims)\<close> for non-negative dimensions.\<close>

definition np_reshape :: "tensor \<Rightarrow> int list \<Rightarrow> error + tensor" where
  "np_reshape t dims =
     (if list_ex (\<lambda>d. d < 0) dims then Inl ValueError
      else if prod_list (map nat dims) = prod_list (shape t)
      then Inr \<lparr>shape = map nat dims, elems = elems t\<rparr>
      else Inl ValueError)"

text \<open>\<^verbatim>\<open>np.concatenate((a, b), axis=1)\<close> of two matrices with the same number of rows.\<close>

definition np_concatenate_axis1 :: "tensor \<Rightarrow> tensor \<Rightarrow> error + tensor" where
  "np_concatenate_axis1 a b =
     (case (shape a, shape b) of
        ([r, ca], [r', cb]) \<Rightarrow>
          if r = r'
          then Inr \<lparr>shape = [r, ca + cb],
                    elems = row_major r (ca + cb)
                      (\<lambda>i j. if j < ca then elems a ! (i * ca + j)
                              else elems b ! (i * cb + (j - ca)))\<rparr>
          else Inl ValueError
      | _ \<Rightarrow> Inl ValueError)"

subsection \<open>The dataset generator\<close>

text \<open>\<^verbatim>\<open>ed.Data(data)\<close> keeps the table it is given.\<close>

datatype Data = Data (data: tensor)

text \<open>
  \<^verbatim>\<open>build_toy_dataset(n_data=40, noise_std=0.1)\<close>, from the state of the global
  generator to the dataset (or the exception) and the state the call leaves.
  \<^verbatim>\<open>n_data/2\<close> is the integer division of Python 2.
\<close>

definition build_toy_dataset ::
    "(int \<Rightarrow> nat \<Rightarrow> real) \<Rightarrow> int \<Rightarrow> real \<Rightarrow> rng \<Rightarrow> (error + Data) \<times> rng" where
  "build_toy_dataset gauss n_data noise_std g0 =
     (let g1 = set_seed 0 g0; D = 1 in
      case np_linspace 0 2 (n_data div 2) of
        Inl e \<Rightarrow> (Inl e, g1)
      | Inr lo \<Rightarrow>
     (case np_linspace 6 8 (n_data div 2) of
        Inl e \<Rightarrow> (Inl e, g1)
      | Inr hi \<Rightarrow>
     (case np_concatenate lo hi of
        Inl e \<Rightarrow> (Inl e, g1)
      | Inr x \<Rightarrow>
     (case norm_rvs gauss 0 noise_std n_data g1 of
        (Inl e, g2) \<Rightarrow> (Inl e, g2)
      | (Inr noise, g2) \<Rightarrow>
     (case np_add (tf_map (\<lambda>v. (75 / 1000) * v) x) noise of
        Inl e \<Rightarrow> (Inl e, g2)
      | Inr y \<Rightarrow>
     (case np_reshape (tf_map (\<lambda>v. (v - 4) / 4) x) [n_data, D] of
        Inl e \<Rightarrow> (Inl e, g2)
      | Inr x' \<Rightarrow>
     (case np_reshape y [n_data, 1] of
        Inl e \<Rightarrow> (Inl e, g2)
      | Inr y' \<Rightarrow>
     (case np_concatenate_axis1 y' x' of
        Inl e \<Rightarrow> (Inl e, g2)
      | Inr d \<Rightarrow> (Inr (Data d), g2)))))))))"

subsection \<open>Progress output\<close>

record MFVI =
  n_iter :: int
  n_print :: int

text \<open>
  \<^verbatim>\<open>np.mean(losses)\<close>. The mean of an empty array is not a number: it is \<open>None\<close> here.
\<close>

definition np_mean :: "real list \<Rightarrow> real option" where
  "np_mean xs = (if xs = [] then None else Some (sum_list xs / real (length xs)))"

text \<open>Python's \<^verbatim>\<open>"%d" % t\<close> for an integer.\<close>

fun digits :: "nat \<Rightarrow> string" where
  "digits n =
     (if n < 10 then [''0123456789'' ! n]
      else digits (n div 10) @ [''0123456789'' ! (n mod 10)])"

declare digits.simps [simp del]

definition fmt_d :: "int \<Rightarrow> string" where
  "fmt_d t = (if t < 0 then ''-'' @ digits (nat (- t)) else digits (nat t))"

text \<open>
  The line \<^verbatim>\<open>"iter %d loss %.2f " % (t, np.mean(losses))\<close>. The conversion
  \<^verbatim>\<open>%.2f\<close> of a number is the parameter \<open>fmt_2f\<close>; of what is not a number it
  gives \<^verbatim>\<open>nan\<close>.
\<close>

definition progress_line :: "(real \<Rightarrow> string) \<Rightarrow> int \<Rightarrow> real list \<Rightarrow> string" where
  "progress_line fmt_2f t losses =
     ''iter '' @ fmt_d t @ '' loss ''
       @ (case np_mean losses of None \<Rightarrow> ''nan'' | Some v \<Rightarrow> fmt_2f v) @ '' ''"

text \<open>
  \<^verbatim>\<open>print_progress(self, t, losses, sess)\<close>, on the lines printed so far. The
  figure that the same branch redraws after the line is printed is not part of the state.
\<close>

definition print_progress ::
    "(real \<Rightarrow> string) \<Rightarrow> MFVI \<Rightarrow> int \<Rightarrow> real list \<Rightarrow> string list \<Rightarrow> error + string list" where
  "print_progress fmt_2f self t losses out =
     (if n_print self = 0 then Inl ZeroDivisionError
      else if t mod n_print self = 0 then Inr (out @ [progress_line fmt_2f t losses])
      else Inr out)"

text \<open>
  The calls of \<^verbatim>\<open>print_progress\<close> that a run makes, one for each iteration with
  its loss estimates. The loop of \<^verbatim>\<open>inference.run\<close> is not among the sources: the
  iterations it passes are the list \<open>calls\<close>.
\<close>

fun print_all ::
    "(real \<Rightarrow> string) \<Rightarrow> MFVI \<Rightarrow> (int \<times> real list) list \<Rightarrow> string list \<Rightarrow> error + string list" where
  "print_all fmt_2f self [] out = Inr out"
| "print_all fmt_2f self ((t, losses) # calls) out =
     (case print_progress fmt_2f self t losses out of
        Inl e \<Rightarrow> Inl e
      | Inr out' \<Rightarrow> print_all fmt_2f self calls out')"

subsection \<open>The formulas of the specification\<close>

text \<open>
  The affine function of a weight vector \<open>w\<close> (the \<open>m\<close> weights, then the bias) at
  row \<open>i\<close> of an input batch with \<open>m\<close> columns.
\<close>

definition affine :: "tensor \<Rightarrow> nat \<Rightarrow> real list \<Rightarrow> nat \<Rightarrow> real" where
  "affine x m w i = (\<Sum>l\<leftarrow>[0..<m]. elems x ! (i * m + l) * w ! l) + w ! m"

text \<open>The number that a string of decimal digits writes.\<close>

definition digit_value :: "char \<Rightarrow> nat" where
  "digit_value c = length (takeWhile (\<lambda>d. d \<noteq> c) ''0123456789'')"

definition decimal_value :: "string \<Rightarrow> nat" where
  "decimal_value cs = foldl (\<lambda>a c. 10 * a + digit_value c) 0 cs"

text \<open>The entry in row \<open>i\<close> and column \<open>j\<close> of a matrix.\<close>

definition entry :: "tensor \<Rightarrow> nat \<Rightarrow> nat \<Rightarrow> real" where
  "entry t i j = elems t ! (i * (shape t ! 1) + j)"

text \<open>
  The prediction \<open>mu\<close> for data point \<open>j\<close> under the \<open>i\<close>-th weight vector: the inputs
  of the data point (columns 1 onwards) times the weights, plus the bias.
\<close>

definition spec_mu :: "tensor \<Rightarrow> tensor \<Rightarrow> nat \<Rightarrow> nat \<Rightarrow> real" where
  "spec_mu xs zs i j =
     (\<Sum>l\<leftarrow>[0..<shape xs ! 1 - 1]. entry xs j (l + 1) * entry zs i l)
       + entry zs i (shape xs ! 1 - 1)"

text \<open>The unnormalized log prior: \<open>- prior_variance * sum(z^2)\<close>.\<close>

definition spec_log_prior :: "LinearModel \<Rightarrow> tensor \<Rightarrow> nat \<Rightarrow> real" where
  "spec_log_prior M zs i = - prior_variance M * (\<Sum>l\<leftarrow>[0..<shape zs ! 1]. (entry zs i l) ^ 2)"

text \<open>The unnormalized log likelihood: \<open>- sum((mu - y)^2) / lik_variance\<close>.\<close>

definition spec_log_lik :: "LinearModel \<Rightarrow> tensor \<Rightarrow> tensor \<Rightarrow> nat \<Rightarrow> real" where
  "spec_log_lik M xs zs i =
     - (\<Sum>j\<leftarrow>[0..<shape xs ! 0]. (spec_mu xs zs i j - entry xs j 0) ^ 2) / lik_variance M"

definition spec_log_joint :: "LinearModel \<Rightarrow> tensor \<Rightarrow> tensor \<Rightarrow> nat \<Rightarrow> real" where
  "spec_log_joint M xs zs i = spec_log_lik M xs zs i + spec_log_prior M zs i"

text \<open>
  The inputs of the toy dataset before rescaling: for \<open>h\<close> the half of the sample count,
  \<open>h\<close> values from 0 to 2 in equal steps, then \<open>h\<close> values from 6 to 8 in equal steps.
\<close>

definition spec_linspace :: "real \<Rightarrow> real \<Rightarrow> nat \<Rightarrow> nat \<Rightarrow> real" where
  "spec_linspace a b h i = (if h = 1 then a else a + real i * ((b - a) / real (h - 1)))"

definition spec_toy_input :: "nat \<Rightarrow> nat \<Rightarrow> real" where
  "spec_toy_input h i = (if i < h then spec_linspace 0 2 h i else spec_linspace 6 8 h (i - h))"

text \<open>
  Row \<open>i\<close> of the toy dataset: column 0 is the output, 0.075 times the input plus the
  \<open>i\<close>-th noise variate of the generator seeded with 0, scaled by \<open>noise_std\<close>; column 1
  is the rescaled input.
\<close>

definition spec_toy_entry :: "(int \<Rightarrow> nat \<Rightarrow> real) \<Rightarrow> nat \<Rightarrow> real \<Rightarrow> nat \<Rightarrow> nat \<Rightarrow> real" where
  "spec_toy_entry gauss h noise_std i j =
     (if j = 0 then (75 / 1000) * spec_toy_input h i + (0 + noise_std * gauss 0 i)
      else (spec_toy_input h i - 4) / 4)"

section \<open>Properties\<close>

subsection \<open>Indexing and broadcasting\<close>

text \<open>Row-major positions: entry \<open>(i, j)\<close> of a matrix with \<open>c\<close> columns is at \<open>i * c + j\<close>.\<close>

lemma idx_bound:
  fixes c :: nat
  assumes "i < r" "j < c"
  shows "i * c + j < r * c"
proof -
  have "i * c + j < Suc i * c" using assms(2) by simp
  also have "\<dots> \<le> r * c" using assms(1) by (intro mult_le_mono1) simp
  finally show ?thesis .
qed

lemma length_row_major: "length (row_major r c f) = r * c"
  unfolding row_major_def by (induction r) simp_all

lemma row_major_Suc: "row_major (Suc r) c f = row_major r c f @ map (\<lambda>j. f r j) [0..<c]"
  unfolding row_major_def by simp

lemma row_major_nth:
  assumes "i < r" "j < c"
  shows "row_major r c f ! (i * c + j) = f i j"
  using assms
proof (induction r)
  case 0
  then show ?case by simp
next
  case (Suc r)
  show ?case
  proof (cases "i < r")
    case True
    then have "i * c + j < r * c"
      using Suc.prems(2) by (rule idx_bound)
    with True Suc show ?thesis
      by (simp add: row_major_Suc nth_append length_row_major)
  next
    case False
    with Suc.prems have "i = r" by simp
    then show ?thesis using Suc.prems
      by (simp add: row_major_Suc nth_append length_row_major)
  qed
qed

lemma row_major_one: "row_major r (Suc 0) f = map (\<lambda>i. f i 0) [0..<r]"
  by (induction r) (simp_all add: row_major_Suc, simp add: row_major_def)

lemma row_major_cong:
  "(\<And>i j. i < r \<Longrightarrow> j < c \<Longrightarrow> f i j = g i j) \<Longrightarrow> row_major r c f = row_major r c g"
  unfolding row_major_def by (auto intro!: arg_cong[where f=concat] map_cong)

lemma concat_rows: "concat (map (\<lambda>i. map (f i) [0..<c]) [0..<r]) = row_major r c f"
  by (simp add: row_major_def)

lemma sum_list_map_cong:
  "(\<And>x. x \<in> set xs \<Longrightarrow> f x = g x) \<Longrightarrow> sum_list (map f xs) = sum_list (map g xs)"
  by (rule arg_cong [where f = sum_list]) simp

lemma sum_take:
  "(\<Sum>l\<leftarrow>[0..<m]. f l * take m w ! l) = (\<Sum>l\<leftarrow>[0..<m]. f l * (w ! l :: real))"
  by (rule arg_cong [where f = sum_list]) simp

lemma collect_Inr: "collect (map (\<lambda>v. Inr (g v)) xs) = Inr (map g xs)"
  by (induction xs) simp_all

text \<open>Two tensors of one shape combine element by element.\<close>

lemma bshape_rev_same: "bshape_rev s s = Some s"
  by (induction s) simp_all

lemma bshape_same: "bshape s s = Some s"
  by (simp add: bshape_def bshape_rev_same)

lemma ravel_unravel: "p < prod_list S \<Longrightarrow> ravel S (unravel S p) = p"
proof (induction S arbitrary: p)
  case Nil
  then show ?case by simp
next
  case (Cons d ds)
  have pos: "0 < prod_list ds" using Cons.prems by (cases "prod_list ds = 0") simp_all
  then have "p mod prod_list ds < prod_list ds" by simp
  then have "ravel ds (unravel ds (p mod prod_list ds)) = p mod prod_list ds"
    by (rule Cons.IH)
  then show ?case by simp
qed

lemma mask_unravel:
  "p < prod_list S \<Longrightarrow> map2 (\<lambda>d i. if d = Suc 0 then 0 else i) S (unravel S p) = unravel S p"
proof (induction S arbitrary: p)
  case Nil
  then show ?case by simp
next
  case (Cons d ds)
  have pos: "0 < prod_list ds" using Cons.prems by (cases "prod_list ds = 0") simp_all
  then have "p mod prod_list ds < prod_list ds" by simp
  then have ih: "map2 (\<lambda>d i. if d = Suc 0 then 0 else i) ds (unravel ds (p mod prod_list ds))
      = unravel ds (p mod prod_list ds)"
    by (rule Cons.IH)
  have "d = Suc 0 \<Longrightarrow> p div prod_list ds = 0" using Cons.prems by simp
  with ih show ?case by auto
qed

lemma bsrc_same: "p < prod_list S \<Longrightarrow> bsrc S S p = p"
  by (simp add: bsrc_def mask_unravel ravel_unravel)

text \<open>The cases of broadcasting that the model uses: a column plus a scalar, a matrix minus a row.\<close>

lemma bsrc_col: "p < k \<Longrightarrow> bsrc [k, Suc 0] [k, Suc 0] p = p"
  using bsrc_same [of p "[k, Suc 0]"] by simp

lemma bsrc_one: "bsrc [k, Suc 0] [Suc 0, Suc 0] p = 0"
  by (simp add: bsrc_def)

lemma bsrc_row: "j < k \<Longrightarrow> bsrc [B, k] [k] (i * k + j) = j"
  by (simp add: bsrc_def)

lemma bsrc_full: "i < B \<Longrightarrow> j < k \<Longrightarrow> bsrc [B, k] [B, k] (i * k + j) = i * k + j"
  using bsrc_same [of "i * k + j" "[B, k]"] idx_bound [of i B j k] by simp

lemma bshape_mat_vec: "bshape [B, k] [k] = Some [B, k]"
  by (simp add: bshape_def)

lemma tf_binop_same:
  assumes "shape a = S" "shape b = S"
  shows "tf_binop f a b = Inr \<lparr>shape = S, elems = map (\<lambda>p. f (elems a ! p) (elems b ! p)) [0..<prod_list S]\<rparr>"
  using assms by (simp add: tf_binop_def bshape_same bsrc_same)

lemma tf_pack_uniform:
  assumes "ts \<noteq> []" "\<And>t. t \<in> set ts \<Longrightarrow> shape t = s"
  shows "tf_pack ts = Inr \<lparr>shape = length ts # s, elems = concat (map elems ts)\<rparr>"
  using assms by (cases ts) (auto simp: tf_pack_def list_all_iff)

lemma tf_reduce_sum1_matrix:
  assumes "shape t = [r, c]"
  shows "tf_reduce_sum1 t =
    Inr \<lparr>shape = [r], elems = map (\<lambda>i. \<Sum>j\<leftarrow>[0..<c]. elems t ! (i * c + j)) [0..<r]\<rparr>"
  using assms by (simp add: tf_reduce_sum1_def row_major_one)

lemma unpack_row_nth:
  assumes "length e = B * V" "i < B" "l < V"
  shows "take V (drop (i * V) e) ! l = e ! (i * V + l)"
proof -
  have "i * V \<le> B * V" using assms(2) by (intro mult_le_mono1) simp
  then have "i * V \<le> length e" using assms(1) by simp
  with assms(3) show ?thesis by simp
qed

lemma unpack_row_length:
  assumes "length e = B * V" "i < B"
  shows "length (take V (drop (i * V) e)) = V"
proof -
  have "Suc i * V \<le> B * V" using assms(2) by (intro mult_le_mono1) simp
  then show ?thesis using assms(1) by simp
qed

lemma int_prod_nonneg: "\<not> int m * int n < 0"
  by (simp add: mult_less_0_iff)

subsection \<open>The number of weights\<close>

text \<open>
  Claim C2. For a weight dimension \<open>[m, n]\<close> of positive integers the constructor
  returns a model whose \<open>num_vars\<close> is \<open>(m + 1) * n\<close>.
\<close>

theorem num_vars_formula:
  assumes "0 < m" "0 < n"
  shows "LinearModel_init [m, n] lv pv =
    Inr \<lparr>weight_dim = [m, n], lik_variance = lv, prior_variance = pv, num_vars = (m + 1) * n\<rparr>"
  by (simp add: LinearModel_init_def py_getitem_def)

theorem num_vars_formula_witness:
  "(0::int) < 2 \<and> (0::int) < 3 \<and>
   LinearModel_init [2, 3] (1 / 100) (1 / 100) =
     Inr \<lparr>weight_dim = [2, 3], lik_variance = 1 / 100, prior_variance = 1 / 100, num_vars = 9\<rparr>"
  using num_vars_formula [of 2 3 "1 / 100" "1 / 100"] by simp

subsection \<open>The shape and the values of the linear mapping\<close>

text \<open>
  For an input batch of shape \<open>(k, m)\<close> and a weight vector of length \<open>(m + 1) * n\<close>
  the mapping returns a tensor whose shape is \<open>(k, n)\<close> without its dimensions of size 1.
\<close>

lemma mapping_shape_general:
  assumes "weight_dim M = [int m, int n]" "shape x = [k, m]" "shape z = [(m + 1) * n]"
  shows "\<exists>h. mapping M x z = Inr h \<and> shape h = filter (\<lambda>d. d \<noteq> 1) [k, n]"
  using assms
  by (simp add: mapping_def py_getitem_def tf_slice_to_def tf_slice_from_def tf_reshape_def
    tf_matmul_def tf_add_def tf_binop_def bshape_def tf_squeeze_def nat_mult_distrib int_prod_nonneg)

text \<open>With a batch of any size but 1 that is \<open>(k,)\<close> when \<open>n = 1\<close>, and \<open>(k, n)\<close> otherwise.\<close>

lemma mapping_shape_batch:
  assumes "weight_dim M = [int m, int n]" "shape x = [k, m]" "shape z = [(m + 1) * n]" "k \<noteq> 1"
  shows "\<exists>h. mapping M x z = Inr h \<and> shape h = (if n = 1 then [k] else [k, n])"
  using mapping_shape_general [OF assms(1-3)] assms(4) by auto

lemma mapping_value:
  assumes wd: "weight_dim M = [int m, 1]"
    and sx: "shape x = [k, m]"
    and sz: "shape z = [m + 1]"
    and lz: "length (elems z) = m + 1"
  shows "mapping M x z =
    Inr \<lparr>shape = filter (\<lambda>d. d \<noteq> 1) [k, 1], elems = map (affine x m (elems z)) [0..<k]\<rparr>"
proof -
  have g0: "py_getitem [int m, 1] 0 = Inr (int m)"
    and g1: "py_getitem [int m, 1] 1 = Inr 1"
    by (simp_all add: py_getitem_def)
  have sl: "tf_slice_to z (int m * 1) = Inr \<lparr>shape = [m], elems = take m (elems z)\<rparr>"
    using sz by (simp add: tf_slice_to_def)
  have sf: "tf_slice_from z (int m * 1) = Inr \<lparr>shape = [1], elems = drop m (elems z)\<rparr>"
    using sz by (simp add: tf_slice_from_def)
  have W: "tf_reshape \<lparr>shape = [m], elems = take m (elems z)\<rparr> [int m, 1]
      = Inr \<lparr>shape = [m, 1], elems = take m (elems z)\<rparr>"
    by (simp add: tf_reshape_def)
  have b: "tf_reshape \<lparr>shape = [1], elems = drop m (elems z)\<rparr> [1, 1]
      = Inr \<lparr>shape = [1, 1], elems = drop m (elems z)\<rparr>"
    by (simp add: tf_reshape_def)
  have mm: "tf_matmul x \<lparr>shape = [m, 1], elems = take m (elems z)\<rparr>
      = Inr \<lparr>shape = [k, 1],
             elems = map (\<lambda>i. \<Sum>l\<leftarrow>[0..<m]. elems x ! (i * m + l) * elems z ! l) [0..<k]\<rparr>"
    using sx by (simp add: tf_matmul_def row_major_one sum_take)
  have ad: "tf_add \<lparr>shape = [k, 1],
             elems = map (\<lambda>i. \<Sum>l\<leftarrow>[0..<m]. elems x ! (i * m + l) * elems z ! l) [0..<k]\<rparr>
           \<lparr>shape = [1, 1], elems = drop m (elems z)\<rparr>
      = Inr \<lparr>shape = [k, 1], elems = map (affine x m (elems z)) [0..<k]\<rparr>"
    using lz by (simp add: tf_add_def tf_binop_def bshape_def bsrc_col bsrc_one affine_def
        cong: map_cong)
  have "mapping M x z = Inr (tf_squeeze \<lparr>shape = [k, 1], elems = map (affine x m (elems z)) [0..<k]\<rparr>)"
    by (simp only: mapping_def wd g0 g1 sl W sf b mm ad sum.case)
  then show ?thesis
    by (simp add: tf_squeeze_def)
qed

text \<open>
  Claim C3. The claim gives the result of the mapping the shape \<open>(k,)\<close> when \<open>n = 1\<close>,
  for every batch size \<open>k\<close>, the size 1 included. The comment at the squeeze says the
  same (\<^verbatim>\<open>n_data x 1 to n_data\<close>). For a batch of one row the squeeze removes the
  batch dimension too: the result is a scalar, of shape \<open>()\<close>, not a vector of length 1.
\<close>

theorem mapping_single_row_shape:
  assumes "weight_dim M = [int m, 1]" "shape x = [1, m]" "shape z = [m + 1]"
  shows "\<exists>h. mapping M x z = Inr h \<and> shape h = [] \<and> shape h \<noteq> [1]"
  using mapping_shape_general [of M m 1 x 1 z] assms by auto

theorem mapping_single_row_shape_witness:
  "weight_dim \<lparr>weight_dim = [1, 1], lik_variance = 1 / 100, prior_variance = 1 / 100, num_vars = 2\<rparr>
     = [int 1, 1]
   \<and> shape \<lparr>shape = [1, 1], elems = [2]\<rparr> = [1, 1]
   \<and> shape \<lparr>shape = [2], elems = [3, 5]\<rparr> = [1 + 1]
   \<and> mapping \<lparr>weight_dim = [1, 1], lik_variance = 1 / 100, prior_variance = 1 / 100, num_vars = 2\<rparr>
         \<lparr>shape = [1, 1], elems = [2]\<rparr> \<lparr>shape = [2], elems = [3, 5]\<rparr>
       = Inr \<lparr>shape = [], elems = [11]\<rparr>"
proof -
  have v: "mapping \<lparr>weight_dim = [1, 1], lik_variance = 1 / 100, prior_variance = 1 / 100, num_vars = 2\<rparr>
         \<lparr>shape = [1, 1], elems = [2]\<rparr> \<lparr>shape = [2], elems = [3, 5]\<rparr>
       = Inr \<lparr>shape = [], elems = [11]\<rparr>"
    by code_simp
  have "\<exists>h. mapping \<lparr>weight_dim = [1, 1], lik_variance = 1 / 100, prior_variance = 1 / 100, num_vars = 2\<rparr>
         \<lparr>shape = [1, 1], elems = [2]\<rparr> \<lparr>shape = [2], elems = [3, 5]\<rparr> = Inr h
       \<and> shape h = [] \<and> shape h \<noteq> [1]"
    by (rule mapping_single_row_shape) simp_all
  with v show ?thesis by simp
qed

subsection \<open>The log joint density\<close>

lemma log_prior_value:
  assumes sz: "shape zs = [B, V]" and lz: "length (elems zs) = B * V"
  shows "log_prior M zs =
    Inr \<lparr>shape = [B],
         elems = map (\<lambda>i. - prior_variance M *
                   (\<Sum>l\<leftarrow>[0..<V]. elems zs ! (i * V + l) * elems zs ! (i * V + l))) [0..<B]\<rparr>"
proof -
  let ?zz = "\<lparr>shape = [B, V], elems = map (\<lambda>p. elems zs ! p * elems zs ! p) [0..<B * V]\<rparr>"
  have m: "tf_mul zs zs = Inr ?zz"
    using tf_binop_same [of zs "[B, V]" zs "(*)"] sz by (simp add: tf_mul_def)
  have "\<And>i. i < B \<Longrightarrow> (\<Sum>j\<leftarrow>[0..<V]. elems ?zz ! (i * V + j))
      = (\<Sum>l\<leftarrow>[0..<V]. elems zs ! (i * V + l) * elems zs ! (i * V + l))"
    by (rule sum_list_map_cong) (simp add: idx_bound)
  then have r: "tf_reduce_sum1 ?zz = Inr \<lparr>shape = [B],
      elems = map (\<lambda>i. \<Sum>l\<leftarrow>[0..<V]. elems zs ! (i * V + l) * elems zs ! (i * V + l)) [0..<B]\<rparr>"
    by (simp add: tf_reduce_sum1_matrix)
  have "log_prior M zs = Inr (tf_map (\<lambda>v. - prior_variance M * v) \<lparr>shape = [B],
      elems = map (\<lambda>i. \<Sum>l\<leftarrow>[0..<V]. elems zs ! (i * V + l) * elems zs ! (i * V + l)) [0..<B]\<rparr>)"
    by (simp only: log_prior_def m r sum.case)
  then show ?thesis
    by (simp add: tf_map_def o_def)
qed

lemma log_lik_value:
  assumes sm: "shape mus = [B, k]" and sy: "shape y = [k]"
  shows "log_lik M mus y =
    Inr \<lparr>shape = [B],
         elems = map (\<lambda>i. (- (\<Sum>j\<leftarrow>[0..<k]. (elems mus ! (i * k + j) - elems y ! j) ^ 2))
                   / lik_variance M) [0..<B]\<rparr>"
proof -
  let ?d = "\<lparr>shape = [B, k],
      elems = map (\<lambda>p. elems mus ! bsrc [B, k] [B, k] p - elems y ! bsrc [B, k] [k] p) [0..<B * k]\<rparr>"
  have s: "tf_sub mus y = Inr ?d"
    using sm sy by (simp add: tf_sub_def tf_binop_def bshape_mat_vec)
  have "\<And>i. i < B \<Longrightarrow> (\<Sum>j\<leftarrow>[0..<k]. elems (tf_map (\<lambda>v. v ^ 2) ?d) ! (i * k + j))
      = (\<Sum>j\<leftarrow>[0..<k]. (elems mus ! (i * k + j) - elems y ! j) ^ 2)"
    by (rule sum_list_map_cong) (simp add: tf_map_def idx_bound bsrc_row bsrc_full)
  then have r: "tf_reduce_sum1 (tf_map (\<lambda>v. v ^ 2) ?d) = Inr \<lparr>shape = [B],
      elems = map (\<lambda>i. \<Sum>j\<leftarrow>[0..<k]. (elems mus ! (i * k + j) - elems y ! j) ^ 2) [0..<B]\<rparr>"
    using tf_reduce_sum1_matrix [of "tf_map (\<lambda>v. v ^ 2) ?d" B k]
    by (simp add: tf_map_def)
  have "log_lik M mus y = Inr (tf_map (\<lambda>v. (- v) / lik_variance M) \<lparr>shape = [B],
      elems = map (\<lambda>i. \<Sum>j\<leftarrow>[0..<k]. (elems mus ! (i * k + j) - elems y ! j) ^ 2) [0..<B]\<rparr>)"
    by (simp only: log_lik_def s r sum.case)
  then show ?thesis
    by (simp add: tf_map_def o_def)
qed

text \<open>
  On a dataset of any number of rows but 1, and a minibatch of at least one weight vector,
  \<^verbatim>\<open>log_prob\<close> returns the vector of the log joint densities of the specification:
  the log likelihood \<open>- sum((mu - y)^2) / lik_variance\<close> plus the log prior
  \<open>- prior_variance * sum(z^2)\<close>, for each weight vector of the minibatch.
\<close>

lemma log_prob_value:
  assumes wd: "weight_dim M = [int D, 1]"
    and sx: "shape xs = [k, D + 1]"
    and sz: "shape zs = [B, D + 1]"
    and wz: "wf_tensor zs"
    and k1: "k \<noteq> 1"
    and B0: "0 < B"
  shows "log_prob M xs zs = Inr \<lparr>shape = [B], elems = map (spec_log_joint M xs zs) [0..<B]\<rparr>"
proof -
  have lz: "length (elems zs) = B * (D + 1)"
    using wz sz by (simp add: wf_tensor_def)
  let ?y = "\<lparr>shape = [k], elems = map (\<lambda>i. elems xs ! (i * (D + 1))) [0..<k]\<rparr>"
  let ?x = "\<lparr>shape = [k, D], elems = row_major k D (\<lambda>i j. elems xs ! (i * (D + 1) + (j + 1)))\<rparr>"
  let ?w = "\<lambda>i. take (D + 1) (drop (i * (D + 1)) (elems zs))"
  let ?zl = "map (\<lambda>i. \<lparr>shape = [D + 1], elems = ?w i\<rparr>) [0..<B]"
  let ?h = "\<lambda>i. \<lparr>shape = [k], elems = map (affine ?x D (?w i)) [0..<k]\<rparr>"
  let ?mus = "\<lparr>shape = [B, k], elems = row_major B k (\<lambda>i. affine ?x D (?w i))\<rparr>"
  have y: "tf_col0 xs = Inr ?y"
    using sx by (simp add: tf_col0_def)
  have x: "tf_cols_from1 xs = Inr ?x"
    using sx by (simp add: tf_cols_from1_def)
  have lp: "log_prior M zs = Inr \<lparr>shape = [B],
         elems = map (\<lambda>i. - prior_variance M *
                   (\<Sum>l\<leftarrow>[0..<D + 1]. elems zs ! (i * (D + 1) + l) * elems zs ! (i * (D + 1) + l))) [0..<B]\<rparr>"
    using sz lz by (rule log_prior_value)
  have up: "tf_unpack zs = Inr ?zl"
    using sz by (simp add: tf_unpack_def)
  have mp: "\<And>i. i < B \<Longrightarrow> mapping M ?x \<lparr>shape = [D + 1], elems = ?w i\<rparr> = Inr (?h i)"
  proof -
    fix i assume "i < B"
    then have "length (?w i) = D + 1" using lz by (intro unpack_row_length)
    then show "mapping M ?x \<lparr>shape = [D + 1], elems = ?w i\<rparr> = Inr (?h i)"
      using mapping_value [of M D ?x k "\<lparr>shape = [D + 1], elems = ?w i\<rparr>"] wd k1 by simp
  qed
  have "map (mapping M ?x) ?zl = map (\<lambda>i. Inr (?h i)) [0..<B]"
    using mp by simp
  then have co: "collect (map (mapping M ?x) ?zl) = Inr (map ?h [0..<B])"
    by (simp only: collect_Inr)
  have ne: "map ?h [0..<B] \<noteq> []"
    using B0 by simp
  have sh: "\<And>t. t \<in> set (map ?h [0..<B]) \<Longrightarrow> shape t = [k]"
    by auto
  have pk: "tf_pack (map ?h [0..<B]) = Inr ?mus"
    using tf_pack_uniform [OF ne sh] by (simp add: o_def concat_rows)
  have mu: "\<And>i j. i < B \<Longrightarrow> j < k \<Longrightarrow> elems ?mus ! (i * k + j) = spec_mu xs zs i j"
  proof -
    fix i j assume i: "i < B" and j: "j < k"
    have "(\<Sum>l\<leftarrow>[0..<D]. elems ?x ! (j * D + l) * ?w i ! l)
        = (\<Sum>l\<leftarrow>[0..<D]. entry xs j (l + 1) * entry zs i l)"
    proof (rule sum_list_map_cong)
      fix l assume "l \<in> set [0..<D]"
      then have l: "l < D" by simp
      then have "l < D + 1" by simp
      with lz i have "?w i ! l = elems zs ! (i * (D + 1) + l)"
        by (intro unpack_row_nth)
      moreover have "elems ?x ! (j * D + l) = elems xs ! (j * (D + 1) + (l + 1))"
        using j l by (simp only: tensor.simps row_major_nth)
      ultimately show "elems ?x ! (j * D + l) * ?w i ! l = entry xs j (l + 1) * entry zs i l"
        using sx sz by (simp add: entry_def)
    qed
    moreover have "?w i ! D = entry zs i D"
      using unpack_row_nth [of "elems zs" B "D + 1" i D] lz i sz by (simp add: entry_def)
    ultimately have "affine ?x D (?w i) j = spec_mu xs zs i j"
      using sx by (simp add: affine_def spec_mu_def)
    then show "elems ?mus ! (i * k + j) = spec_mu xs zs i j"
      using i j by (simp only: tensor.simps row_major_nth)
  qed
  have "\<And>i. i < B \<Longrightarrow> (\<Sum>j\<leftarrow>[0..<k]. (elems ?mus ! (i * k + j) - elems ?y ! j) ^ 2)
      = (\<Sum>j\<leftarrow>[0..<k]. (spec_mu xs zs i j - entry xs j 0) ^ 2)"
  proof -
    fix i assume i: "i < B"
    show "(\<Sum>j\<leftarrow>[0..<k]. (elems ?mus ! (i * k + j) - elems ?y ! j) ^ 2)
      = (\<Sum>j\<leftarrow>[0..<k]. (spec_mu xs zs i j - entry xs j 0) ^ 2)"
    proof (rule sum_list_map_cong)
      fix j assume "j \<in> set [0..<k]"
      then have j: "j < k" by simp
      then have "elems ?y ! j = entry xs j 0"
        using sx by (simp add: entry_def)
      with mu [OF i j] show "(elems ?mus ! (i * k + j) - elems ?y ! j) ^ 2
          = (spec_mu xs zs i j - entry xs j 0) ^ 2"
        by simp
    qed
  qed
  then have "map (\<lambda>i. (- (\<Sum>j\<leftarrow>[0..<k]. (elems ?mus ! (i * k + j) - elems ?y ! j) ^ 2))
                   / lik_variance M) [0..<B] = map (spec_log_lik M xs zs) [0..<B]"
    using sx by (simp add: spec_log_lik_def)
  then have ll: "log_lik M ?mus ?y = Inr \<lparr>shape = [B], elems = map (spec_log_lik M xs zs) [0..<B]\<rparr>"
    using log_lik_value [of ?mus B k ?y M] by simp
  have "map (\<lambda>i. - prior_variance M *
      (\<Sum>l\<leftarrow>[0..<D + 1]. elems zs ! (i * (D + 1) + l) * elems zs ! (i * (D + 1) + l))) [0..<B]
      = map (spec_log_prior M zs) [0..<B]"
    using sz by (simp add: spec_log_prior_def entry_def power2_eq_square)
  with lp have lp': "log_prior M zs = Inr \<lparr>shape = [B], elems = map (spec_log_prior M zs) [0..<B]\<rparr>"
    by simp
  have ad: "tf_add \<lparr>shape = [B], elems = map (spec_log_lik M xs zs) [0..<B]\<rparr>
      \<lparr>shape = [B], elems = map (spec_log_prior M zs) [0..<B]\<rparr>
      = Inr \<lparr>shape = [B], elems = map (spec_log_joint M xs zs) [0..<B]\<rparr>"
    using tf_binop_same [of "\<lparr>shape = [B], elems = map (spec_log_lik M xs zs) [0..<B]\<rparr>" "[B]"
        "\<lparr>shape = [B], elems = map (spec_log_prior M zs) [0..<B]\<rparr>" "(+)"]
    by (simp add: tf_add_def spec_log_joint_def)
  show ?thesis
    by (simp only: log_prob_def y x lp' up co pk ll ad sum.case)
qed

lemma log_lik_vector:
  assumes "shape mus = [B]" "shape y = [1]"
  shows "log_lik M mus y = Inl ValueError"
  using assms
  by (simp add: log_lik_def tf_sub_def tf_binop_def bshape_def tf_reduce_sum1_def tf_map_def)

text \<open>
  Claim C1. The claim gives \<^verbatim>\<open>log_prob\<close> the value log likelihood plus log prior
  for every dataset matrix. On a dataset of one row the call raises instead: the mapping
  returns a scalar for each weight vector (the squeeze of claim C3), their stack has one
  dimension only, and the sum along dimension 1 is refused.
\<close>

theorem log_prob_single_row:
  assumes wd: "weight_dim M = [int D, 1]"
    and sx: "shape xs = [1, D + 1]"
    and sz: "shape zs = [B, D + 1]"
    and wz: "wf_tensor zs"
    and B0: "0 < B"
  shows "log_prob M xs zs = Inl ValueError"
proof -
  have lz: "length (elems zs) = B * (D + 1)"
    using wz sz by (simp add: wf_tensor_def)
  let ?y = "\<lparr>shape = [1], elems = map (\<lambda>i. elems xs ! (i * (D + 1))) [0..<1]\<rparr>"
  let ?x = "\<lparr>shape = [1, D], elems = row_major 1 D (\<lambda>i j. elems xs ! (i * (D + 1) + (j + 1)))\<rparr>"
  let ?w = "\<lambda>i. take (D + 1) (drop (i * (D + 1)) (elems zs))"
  let ?zl = "map (\<lambda>i. \<lparr>shape = [D + 1], elems = ?w i\<rparr>) [0..<B]"
  let ?h = "\<lambda>i. \<lparr>shape = [], elems = map (affine ?x D (?w i)) [0..<1]\<rparr>"
  let ?mus = "\<lparr>shape = [B], elems = concat (map elems (map ?h [0..<B]))\<rparr>"
  have y: "tf_col0 xs = Inr ?y"
    using sx by (simp add: tf_col0_def)
  have x: "tf_cols_from1 xs = Inr ?x"
    using sx by (simp add: tf_cols_from1_def)
  obtain lp where lp: "log_prior M zs = Inr lp"
    using log_prior_value [OF sz lz] by simp
  have up: "tf_unpack zs = Inr ?zl"
    using sz by (simp add: tf_unpack_def)
  have mp: "\<And>i. i < B \<Longrightarrow> mapping M ?x \<lparr>shape = [D + 1], elems = ?w i\<rparr> = Inr (?h i)"
  proof -
    fix i assume "i < B"
    then have "length (?w i) = D + 1" using lz by (intro unpack_row_length)
    then show "mapping M ?x \<lparr>shape = [D + 1], elems = ?w i\<rparr> = Inr (?h i)"
      using mapping_value [of M D ?x 1 "\<lparr>shape = [D + 1], elems = ?w i\<rparr>"] wd by simp
  qed
  have "map (mapping M ?x) ?zl = map (\<lambda>i. Inr (?h i)) [0..<B]"
    using mp by simp
  then have co: "collect (map (mapping M ?x) ?zl) = Inr (map ?h [0..<B])"
    by (simp only: collect_Inr)
  have ne: "map ?h [0..<B] \<noteq> []"
    using B0 by simp
  have sh: "\<And>t. t \<in> set (map ?h [0..<B]) \<Longrightarrow> shape t = []"
    by auto
  have pk: "tf_pack (map ?h [0..<B]) = Inr ?mus"
    using tf_pack_uniform [OF ne sh] by simp
  have ll: "log_lik M ?mus ?y = Inl ValueError"
    by (rule log_lik_vector) simp_all
  show ?thesis
    by (simp only: log_prob_def y x lp up co pk ll sum.case)
qed

theorem log_prob_single_row_witness:
  "weight_dim \<lparr>weight_dim = [1, 1], lik_variance = 1 / 100, prior_variance = 1 / 100, num_vars = 2\<rparr>
     = [int 1, 1]
   \<and> shape \<lparr>shape = [1, 2], elems = [1 / 2, 1]\<rparr> = [1, 1 + 1]
   \<and> shape \<lparr>shape = [1, 2], elems = [1 / 10, 1 / 5]\<rparr> = [1, 1 + 1]
   \<and> wf_tensor \<lparr>shape = [1, 2], elems = [1 / 10, 1 / 5]\<rparr>
   \<and> (0::nat) < 1
   \<and> log_prob \<lparr>weight_dim = [1, 1], lik_variance = 1 / 100, prior_variance = 1 / 100, num_vars = 2\<rparr>
         \<lparr>shape = [1, 2], elems = [1 / 2, 1]\<rparr> \<lparr>shape = [1, 2], elems = [1 / 10, 1 / 5]\<rparr>
       = Inl ValueError"
proof -
  have "log_prob \<lparr>weight_dim = [1, 1], lik_variance = 1 / 100, prior_variance = 1 / 100, num_vars = 2\<rparr>
         \<lparr>shape = [1, 2], elems = [1 / 2, 1]\<rparr> \<lparr>shape = [1, 2], elems = [1 / 10, 1 / 5]\<rparr>
       = Inl ValueError"
    by (rule log_prob_single_row [where D = 1 and B = 1]) (simp_all add: wf_tensor_def)
  then show ?thesis by (simp add: wf_tensor_def)
qed

text \<open>
  Claim C5. The claim, and the docstring of \<^verbatim>\<open>log_prob\<close>, give the call a vector
  of length \<open>n_minibatch\<close> for every minibatch of at least one weight vector. With a
  dataset of one row and a minibatch of three weight vectors the call raises, by the
  squeeze of claim C3.
\<close>

theorem log_prob_minibatch_single_row:
  "log_prob \<lparr>weight_dim = [1, 1], lik_variance = 1 / 100, prior_variance = 1 / 100, num_vars = 2\<rparr>
     \<lparr>shape = [1, 2], elems = [1 / 2, 1]\<rparr> \<lparr>shape = [3, 2], elems = [1, 0, 0, 1, 1, 1]\<rparr>
   = Inl ValueError"
  by code_simp

subsection \<open>The prior variance as a penalty coefficient\<close>

text \<open>
  In exact arithmetic the log prior \<open>- prior_variance * sum(z^2)\<close> of a weight vector
  with \<open>sum(z^2) > 0\<close> is strictly smaller under the larger prior variance, and so is
  the value of \<^verbatim>\<open>log_prob\<close>.
\<close>

lemma log_prior_exact_decreasing:
  assumes sz: "shape zs = [B, V]" and wf: "wf_tensor zs" and i: "i < B"
    and pos: "0 < (\<Sum>l\<leftarrow>[0..<V]. (entry zs i l) ^ 2)"
    and lt: "prior_variance M1 < prior_variance M2"
  shows "\<exists>a b. log_prior M1 zs = Inr a \<and> log_prior M2 zs = Inr b
    \<and> elems a ! i = - prior_variance M1 * (\<Sum>l\<leftarrow>[0..<V]. (entry zs i l) ^ 2)
    \<and> elems b ! i = - prior_variance M2 * (\<Sum>l\<leftarrow>[0..<V]. (entry zs i l) ^ 2)
    \<and> elems b ! i < elems a ! i"
proof -
  have lz: "length (elems zs) = B * V"
    using wf sz by (simp add: wf_tensor_def)
  have e: "(\<Sum>l\<leftarrow>[0..<V]. elems zs ! (i * V + l) * elems zs ! (i * V + l))
      = (\<Sum>l\<leftarrow>[0..<V]. (entry zs i l) ^ 2)"
    using sz by (simp add: entry_def power2_eq_square)
  have "- prior_variance M2 * (\<Sum>l\<leftarrow>[0..<V]. (entry zs i l) ^ 2)
      < - prior_variance M1 * (\<Sum>l\<leftarrow>[0..<V]. (entry zs i l) ^ 2)"
    using pos lt by simp
  then show ?thesis
    using i e by (simp add: log_prior_value [OF sz lz])
qed

lemma log_prob_exact_decreasing:
  assumes wd: "weight_dim M1 = [int D, 1]" "weight_dim M2 = [int D, 1]"
    and lv: "lik_variance M1 = lik_variance M2"
    and sx: "shape xs = [k, D + 1]"
    and sz: "shape zs = [B, D + 1]"
    and wz: "wf_tensor zs"
    and k1: "k \<noteq> 1"
    and i: "i < B"
    and pos: "0 < (\<Sum>l\<leftarrow>[0..<D + 1]. (entry zs i l) ^ 2)"
    and lt: "prior_variance M1 < prior_variance M2"
  shows "\<exists>a b. log_prob M1 xs zs = Inr a \<and> log_prob M2 xs zs = Inr b
    \<and> elems b ! i < elems a ! i"
proof -
  have B0: "0 < B" using i by simp
  have "- prior_variance M2 * (\<Sum>l\<leftarrow>[0..<D + 1]. (entry zs i l) ^ 2)
      < - prior_variance M1 * (\<Sum>l\<leftarrow>[0..<D + 1]. (entry zs i l) ^ 2)"
    using pos lt by simp
  then have "spec_log_joint M2 xs zs i < spec_log_joint M1 xs zs i"
    using sz lv by (simp add: spec_log_joint_def spec_log_lik_def spec_log_prior_def)
  then show ?thesis
    using i by (simp add: log_prob_value [OF wd(1) sx sz wz k1 B0]
        log_prob_value [OF wd(2) sx sz wz k1 B0])
qed

text \<open>Rounding to an integer and the binary exponent are monotone.\<close>

lemma rhe_of_int: "rhe (of_int n) = n"
  by (simp add: rhe_def)

lemma rhe_floor_bounds: "\<lfloor>x\<rfloor> \<le> rhe x" "rhe x \<le> \<lfloor>x\<rfloor> + 1"
  by (simp_all add: rhe_def Let_def)

lemma rhe_mono:
  assumes "x \<le> y"
  shows "rhe x \<le> rhe y"
proof (cases "\<lfloor>x\<rfloor> = \<lfloor>y\<rfloor>")
  case True
  then have "x - of_int \<lfloor>x\<rfloor> \<le> y - of_int \<lfloor>y\<rfloor>"
    using assms by simp
  then show ?thesis
    using True by (auto simp: rhe_def Let_def)
next
  case False
  then have "\<lfloor>x\<rfloor> < \<lfloor>y\<rfloor>"
    using assms floor_mono [of x y] by linarith
  then have "rhe x \<le> \<lfloor>y\<rfloor>"
    using rhe_floor_bounds(2) [of x] by linarith
  then show ?thesis
    using rhe_floor_bounds(1) [of y] by linarith
qed

lemma rhe_le: "x \<le> of_int n \<Longrightarrow> rhe x \<le> n"
  using rhe_mono [of x "of_int n"] by (simp add: rhe_of_int)

lemma rhe_ge: "of_int n \<le> x \<Longrightarrow> n \<le> rhe x"
  using rhe_mono [of "of_int n" x] by (simp add: rhe_of_int)

lemma expo_from_lower: "e \<le> expo_from k e x"
proof (induction k arbitrary: e)
  case 0
  then show ?case by simp
next
  case (Suc k)
  from Suc [of "e + 1"] show ?case by auto
qed

lemma expo_from_upper: "expo_from k e x \<le> e + int k"
proof (induction k arbitrary: e)
  case 0
  then show ?case by simp
next
  case (Suc k)
  from Suc [of "e + 1"] show ?case by auto
qed

lemma expo_from_below:
  "expo_from k e x < e + int k \<Longrightarrow> x < 2 powi (expo_from k e x + 1)"
proof (induction k arbitrary: e)
  case 0
  then show ?case by simp
next
  case (Suc k)
  show ?case
  proof (cases "x < 2 powi (e + 1)")
    case True
    then show ?thesis by simp
  next
    case False
    with Suc.prems have "expo_from k (e + 1) x < (e + 1) + int k" by simp
    then have "x < 2 powi (expo_from k (e + 1) x + 1)" by (rule Suc.IH)
    with False show ?thesis by simp
  qed
qed

lemma expo_from_above:
  "e < expo_from k e x \<Longrightarrow> 2 powi (expo_from k e x) \<le> x"
proof (induction k arbitrary: e)
  case 0
  then show ?case by simp
next
  case (Suc k)
  show ?case
  proof (cases "x < 2 powi (e + 1)")
    case True
    with Suc.prems show ?thesis by simp
  next
    case False
    show ?thesis
    proof (cases "e + 1 < expo_from k (e + 1) x")
      case True
      then have "2 powi (expo_from k (e + 1) x) \<le> x" by (rule Suc.IH)
      with False show ?thesis by simp
    next
      case n: False
      with expo_from_lower [of "e + 1" k x] have "expo_from k (e + 1) x = e + 1" by simp
      with False show ?thesis by simp
    qed
  qed
qed

lemma expo_from_mono:
  "x \<le> y \<Longrightarrow> expo_from k e x \<le> expo_from k e y"
proof (induction k arbitrary: e)
  case 0
  then show ?case by simp
next
  case (Suc k)
  show ?case
  proof (cases "y < 2 powi (e + 1)")
    case True
    with Suc.prems show ?thesis by simp
  next
    case False
    show ?thesis
    proof (cases "x < 2 powi (e + 1)")
      case True
      with False expo_from_lower [of "e + 1" k y] show ?thesis by simp
    next
      case n: False
      with False Suc.IH [OF Suc.prems, of "e + 1"] show ?thesis by simp
    qed
  qed
qed

lemma expo_range: "- 126 \<le> expo x" "expo x \<le> 128"
  using expo_from_lower [of "- 126" 254 x] expo_from_upper [of 254 "- 126" x]
  by (simp_all add: expo_def)

lemma expo_below: "expo x < 128 \<Longrightarrow> x < 2 powi (expo x + 1)"
  using expo_from_below [of 254 "- 126" x] by (simp add: expo_def)

lemma expo_above: "- 126 < expo x \<Longrightarrow> 2 powi (expo x) \<le> x"
  using expo_from_above [of "- 126" 254 x] by (simp add: expo_def)

lemma expo_mono: "x \<le> y \<Longrightarrow> expo x \<le> expo y"
  by (simp add: expo_def expo_from_mono)

text \<open>Rounding to float32 is monotone.\<close>

lemma two_powi_mono: "a \<le> b \<Longrightarrow> (2::real) powi a \<le> 2 powi b"
  by (rule power_int_increasing) simp_all

lemma two_powi_split: "(2::real) powi (a + b) = 2 powi a * 2 powi b"
  by (rule power_int_add) simp

lemma expo_eq:
  assumes "- 126 \<le> e" "e \<le> 127" "2 powi e \<le> x" "x < 2 powi (e + 1)"
  shows "expo x = e"
proof (rule ccontr)
  assume ne: "expo x \<noteq> e"
  show False
  proof (cases "expo x < e")
    case True
    then have "expo x < 128" using assms(2) by simp
    then have "x < 2 powi (expo x + 1)" by (rule expo_below)
    also have "\<dots> \<le> 2 powi e" using True by (intro two_powi_mono) simp
    finally show False using assms(3) by simp
  next
    case False
    with ne have gt: "e < expo x" by simp
    then have "- 126 < expo x" using assms(1) by simp
    then have "2 powi (expo x) \<le> x" by (rule expo_above)
    moreover have "(2::real) powi (e + 1) \<le> 2 powi (expo x)" using gt by (intro two_powi_mono) simp
    ultimately show False using assms(4) by simp
  qed
qed

lemma expo_subnormal: "x < 2 powi (- 125) \<Longrightarrow> expo x = - 126"
  by (simp add: expo_def eval_nat_numeral)

lemma rnd_pos_nonneg: "0 \<le> x \<Longrightarrow> 0 \<le> rnd_pos x"
proof -
  assume "0 \<le> x"
  then have "of_int 0 \<le> x / 2 powi (expo x - 23)" by simp
  then have "0 \<le> rhe (x / 2 powi (expo x - 23))" by (rule rhe_ge)
  then show ?thesis by (simp add: rnd_pos_def)
qed

lemma rnd_pos_upper:
  assumes "0 \<le> x" "expo x < 128"
  shows "rnd_pos x \<le> 2 powi (expo x + 1)"
proof -
  let ?u = "(2::real) powi (expo x - 23)"
  have u: "0 < ?u" by simp
  have "x < 2 powi (expo x + 1)" using assms(2) by (rule expo_below)
  also have "(2::real) powi (expo x + 1) = 2 powi 24 * ?u"
    using two_powi_split [of 24 "expo x - 23"] by (simp add: algebra_simps)
  finally have "x / ?u \<le> of_int (2 ^ 24)"
    using u by (simp add: pos_divide_le_eq)
  then have "rhe (x / ?u) \<le> 2 ^ 24" by (rule rhe_le)
  then have "real_of_int (rhe (x / ?u)) \<le> real_of_int (2 ^ 24)" by (simp only: of_int_le_iff)
  then have "real_of_int (rhe (x / ?u)) \<le> 2 ^ 24" by simp
  then have "real_of_int (rhe (x / ?u)) * ?u \<le> 2 ^ 24 * ?u"
    using u by (simp add: mult_right_mono)
  also have "2 ^ 24 * ?u = (2::real) powi (expo x + 1)"
    using two_powi_split [of 24 "expo x - 23"] by (simp add: algebra_simps)
  finally show ?thesis by (simp add: rnd_pos_def)
qed

lemma rnd_pos_lower:
  assumes "- 126 < expo x"
  shows "2 powi (expo x) \<le> rnd_pos x"
proof -
  let ?u = "(2::real) powi (expo x - 23)"
  have u: "0 < ?u" by simp
  have e: "(2::real) powi (expo x) = 2 powi 23 * ?u"
    using two_powi_split [of 23 "expo x - 23"] by (simp add: algebra_simps)
  have "2 powi (expo x) \<le> x" using assms by (rule expo_above)
  then have "of_int (2 ^ 23) \<le> x / ?u"
    using u by (simp add: pos_le_divide_eq e)
  then have "2 ^ 23 \<le> rhe (x / ?u)" by (rule rhe_ge)
  then have "real_of_int (2 ^ 23) \<le> real_of_int (rhe (x / ?u))" by (simp only: of_int_le_iff)
  then have "2 ^ 23 \<le> real_of_int (rhe (x / ?u))" by simp
  then have "2 ^ 23 * ?u \<le> real_of_int (rhe (x / ?u)) * ?u"
    using u by (simp add: mult_right_mono)
  then show ?thesis by (simp add: rnd_pos_def e)
qed

lemma rnd_pos_mono:
  assumes "0 \<le> x" "x \<le> y"
  shows "rnd_pos x \<le> rnd_pos y"
proof (cases "expo x = expo y")
  case True
  let ?u = "(2::real) powi (expo y - 23)"
  have u: "0 < ?u" by simp
  have "x / ?u \<le> y / ?u" using assms(2) u by (simp add: divide_right_mono)
  then have "rhe (x / ?u) \<le> rhe (y / ?u)" by (rule rhe_mono)
  then have "real_of_int (rhe (x / ?u)) * ?u \<le> real_of_int (rhe (y / ?u)) * ?u"
    using u by (simp add: mult_right_mono)
  then show ?thesis by (simp add: rnd_pos_def True)
next
  case False
  with expo_mono [OF assms(2)] have lt: "expo x < expo y" by simp
  then have "expo x < 128" using expo_range(2) [of y] by simp
  with assms(1) have "rnd_pos x \<le> 2 powi (expo x + 1)" by (rule rnd_pos_upper)
  also have "\<dots> \<le> 2 powi (expo y)" using lt by (intro two_powi_mono) simp
  also have "\<dots> \<le> rnd_pos y"
    using lt expo_range(1) [of x] by (intro rnd_pos_lower) simp
  finally show ?thesis .
qed

lemma rnd_mono:
  assumes "x \<le> y"
  shows "rnd x \<le> rnd y"
proof -
  consider "y < 0" | "x < 0" "0 \<le> y" | "0 \<le> x" by linarith
  then show ?thesis
  proof cases
    case 1
    then have "rnd_pos (- y) \<le> rnd_pos (- x)" using assms by (intro rnd_pos_mono) simp_all
    with 1 assms show ?thesis by (simp add: rnd_def)
  next
    case 2
    then have "0 \<le> rnd_pos (- x)" "0 \<le> rnd_pos y" by (simp_all add: rnd_pos_nonneg)
    with 2 show ?thesis by (simp add: rnd_def)
  next
    case 3
    then show ?thesis using assms by (simp add: rnd_def rnd_pos_mono)
  qed
qed

lemma rnd_pos_at:
  assumes "- 126 \<le> e" "e \<le> 127" "2 powi e \<le> x" "x < 2 powi (e + 1)"
  shows "rnd_pos x = of_int (rhe (x / 2 powi (e - 23))) * 2 powi (e - 23)"
  using expo_eq [OF assms] by (simp add: rnd_pos_def)

lemma f32_round_mono: "x \<le> y \<Longrightarrow> f32_le (f32_round x) (f32_round y)"
  using rnd_mono [of x y] by (auto simp: f32_round_def Let_def)

lemma f32_round_not_NaN: "f32_round x \<noteq> NaN"
  by (simp add: f32_round_def Let_def)

lemma f32_mul_mono_left:
  assumes "f32_le c d" "0 < s"
  shows "f32_le (f32_mul c (Fin s)) (f32_mul d (Fin s))"
proof (cases c)
  case NaN
  with assms show ?thesis by simp
next
  case NInf
  with assms show ?thesis
    by (cases d) (simp_all add: f32_round_def Let_def)
next
  case (Fin a)
  show ?thesis
  proof (cases d)
    case (Fin b)
    with \<open>c = Fin a\<close> assms have "a * s \<le> b * s" by simp
    then show ?thesis using Fin \<open>c = Fin a\<close> by (simp add: f32_round_mono)
  next
    case PInf
    with \<open>c = Fin a\<close> assms show ?thesis by (simp add: f32_round_def Let_def)
  qed (use \<open>c = Fin a\<close> assms in simp_all)
next
  case PInf
  with assms show ?thesis by (cases d) simp_all
qed

text \<open>The value of the float32 log prior on a matrix of weight vectors.\<close>

lemma concat_singletons: "concat (map (\<lambda>i. [f i]) xs) = map f xs"
  by (induction xs) simp_all

lemma tf_binop32_same:
  assumes "shape32 a = S" "shape32 b = S"
  shows "tf_binop32 f a b =
    Inr \<lparr>shape32 = S, elems32 = map (\<lambda>p. f (elems32 a ! p) (elems32 b ! p)) [0..<prod_list S]\<rparr>"
  using assms by (simp add: tf_binop32_def bshape_same bsrc_same)

lemma tf_reduce_sum1_32_matrix:
  assumes "shape32 t = [r, c]"
  shows "tf_reduce_sum1_32 t =
    Inr \<lparr>shape32 = [r],
         elems32 = map (\<lambda>i. f32_sum (map (\<lambda>j. elems32 t ! (i * c + j)) [0..<c])) [0..<r]\<rparr>"
  using assms by (simp add: tf_reduce_sum1_32_def concat_singletons)

lemma log_prior32_value:
  assumes sz: "shape32 zs = [B, V]"
  shows "log_prior32 M zs =
    Inr \<lparr>shape32 = [B],
         elems32 = map (\<lambda>i. f32_mul (f32_round (- prior_variance M)) (row_sumsq32 zs i)) [0..<B]\<rparr>"
proof -
  let ?zz = "\<lparr>shape32 = [B, V],
      elems32 = map (\<lambda>p. f32_mul (elems32 zs ! p) (elems32 zs ! p)) [0..<B * V]\<rparr>"
  have m: "tf_binop32 f32_mul zs zs = Inr ?zz"
    using tf_binop32_same [of zs "[B, V]" zs f32_mul] sz by simp
  have row: "f32_sum (map (\<lambda>j. elems32 ?zz ! (i * V + j)) [0..<V]) = row_sumsq32 zs i"
    if "i < B" for i
  proof -
    have "map (\<lambda>j. elems32 ?zz ! (i * V + j)) [0..<V]
        = map (\<lambda>l. f32_mul (elems32 zs ! (i * V + l)) (elems32 zs ! (i * V + l))) [0..<V]"
      using that by (intro map_cong) (simp_all add: idx_bound)
    then show ?thesis
      using sz by (simp only: row_sumsq32_def) simp
  qed
  have "map (\<lambda>i. f32_sum (map (\<lambda>j. elems32 ?zz ! (i * V + j)) [0..<V])) [0..<B]
      = map (row_sumsq32 zs) [0..<B]"
  proof (rule map_cong)
    fix i assume "i \<in> set [0..<B]"
    then have "i < B" by simp
    then show "f32_sum (map (\<lambda>j. elems32 ?zz ! (i * V + j)) [0..<V]) = row_sumsq32 zs i"
      by (rule row)
  qed simp
  then have r: "tf_reduce_sum1_32 ?zz = Inr \<lparr>shape32 = [B], elems32 = map (row_sumsq32 zs) [0..<B]\<rparr>"
    using tf_reduce_sum1_32_matrix [of ?zz B V] by simp
  have "log_prior32 M zs = Inr \<lparr>shape32 = [B],
      elems32 = map (f32_mul (f32_round (- prior_variance M))) (map (row_sumsq32 zs) [0..<B])\<rparr>"
    by (simp only: log_prior32_def m r sum.case tensor32.simps)
  then show ?thesis by (simp add: o_def)
qed


text \<open>
  The exact and the float32 log prior raise on the same shapes, and return the same shape.
\<close>

lemma log_prior_shape_agrees:
  assumes "shape32 zs32 = shape zs"
  shows "(case log_prior M zs of
            Inl e \<Rightarrow> log_prior32 M zs32 = Inl e
          | Inr a \<Rightarrow> (\<exists>b. log_prior32 M zs32 = Inr b \<and> shape32 b = shape a))"
  using assms
  by (simp add: log_prior_def log_prior32_def tf_mul_def tf_binop_def tf_binop32_def bshape_same
      tf_reduce_sum1_def tf_reduce_sum1_32_def tf_map_def split: list.splits)

text \<open>The float32 nearest to a number whose binary exponent is known.\<close>

lemma f32_round_eval:
  assumes e: "- 126 \<le> e" "e \<le> 127"
    and x: "2 powi e \<le> \<bar>x\<bar>" "\<bar>x\<bar> < 2 powi (e + 1)"
    and n: "rhe (\<bar>x\<bar> / 2 powi (e - 23)) = n" "n < 2 ^ 24"
  shows "f32_round x = Fin (sgn x * (of_int n * 2 powi (e - 23)))"
proof -
  let ?u = "(2::real) powi (e - 23)"
  have u: "0 < ?u" by simp
  have ex: "expo \<bar>x\<bar> = e" using e x by (rule expo_eq)
  have rp: "rnd_pos \<bar>x\<bar> = of_int n * ?u"
    by (simp add: rnd_pos_def ex n(1))
  have "0 \<le> \<bar>x\<bar> / ?u" by simp
  then have "of_int 0 \<le> \<bar>x\<bar> / ?u" by simp
  then have "0 \<le> rhe (\<bar>x\<bar> / ?u)" by (rule rhe_ge)
  then have n0: "0 \<le> real_of_int n" using n(1) by simp
  have "n \<le> 2 ^ 24 - 1" using n(2) by simp
  then have "real_of_int n \<le> real_of_int (2 ^ 24 - 1)" by (simp only: of_int_le_iff)
  then have n1: "real_of_int n \<le> 2 ^ 24 - 1" by simp
  have "?u \<le> 2 powi 104" using e(2) by (intro two_powi_mono) simp
  then have u1: "?u \<le> 2 ^ 104" by simp
  have "real_of_int n * ?u \<le> (2 ^ 24 - 1) * 2 ^ 104"
    using n0 n1 u u1 by (intro mult_mono) simp_all
  also have "\<dots> < (2::real) ^ 128" by simp
  finally have small: "real_of_int n * ?u < 2 ^ 128" .
  have nonneg: "0 \<le> real_of_int n * ?u" using n0 u by simp
  have xne: "x \<noteq> 0"
  proof
    assume "x = 0"
    with x(1) have "(2::real) powi e \<le> 0" by simp
    moreover have "0 < (2::real) powi e" by simp
    ultimately show False by linarith
  qed
  show ?thesis
  proof (cases "x < 0")
    case True
    then have "rnd x = - (of_int n * ?u)"
      using rp by (simp add: rnd_def abs_if)
    then show ?thesis
      using True small nonneg by (simp add: f32_round_def Let_def sgn_if)
  next
    case False
    then have "rnd x = of_int n * ?u"
      using rp by (simp add: rnd_def abs_if)
    then show ?thesis
      using False xne small nonneg by (simp add: f32_round_def Let_def sgn_if)
  qed
qed

lemma f32_round_zero: "f32_round 0 = Fin 0"
  by (simp add: f32_round_def rnd_def rnd_pos_def rhe_def)

text \<open>The float32 sum of squares of the weight vector \<open>(2561/2048, 0)\<close> is exact.\<close>

lemma f32_round_example: "f32_round (6558721 / 4194304) = Fin (6558721 / 4194304)"
  by (subst f32_round_eval [where e = 0 and n = 13117442])
    (simp_all add: rhe_def Let_def power_int_minus)

lemma row_sumsq32_example:
  "row_sumsq32 \<lparr>shape32 = [1, 2], elems32 = [Fin (2561 / 2048), Fin 0]\<rparr> 0
     = Fin (6558721 / 4194304)"
proof -
  have sq: "(2561 / 2048) * (2561 / 2048) = (6558721 / 4194304 :: real)"
    by simp
  have m1: "f32_mul (Fin (2561 / 2048)) (Fin (2561 / 2048)) = Fin (6558721 / 4194304)"
    by (simp only: f32_mul.simps sq f32_round_example)
  have m0: "f32_mul (Fin 0) (Fin 0) = Fin 0"
    by (simp only: f32_mul.simps mult_zero_left f32_round_zero)
  have a1: "f32_add (Fin 0) (Fin (6558721 / 4194304)) = Fin (6558721 / 4194304)"
    by (simp only: f32_add.simps add_0 f32_round_example)
  have a2: "f32_add (Fin (6558721 / 4194304)) (Fin 0) = Fin (6558721 / 4194304)"
    by (simp only: f32_add.simps add_0_right f32_round_example)
  show ?thesis
    by (simp add: row_sumsq32_def f32_sum_def m1 m0 a1 a2 upt_rec
        del: f32_mul.simps f32_add.simps)
qed

text \<open>
  Claim C10. The claim makes the log-prior term strictly decreasing in the prior variance.
  In the float32 arithmetic of line 78 it is decreasing, not strictly: for a weight vector
  whose sum of squares is a positive number, the term under a prior variance that is not
  smaller is not greater. So the prior variance is a coefficient of the penalty, the
  opposite of a variance that divides it.
\<close>

theorem log_prior32_nonincreasing:
  assumes sz: "shape32 zs = [B, V]" and i: "i < B"
    and s: "row_sumsq32 zs i = Fin s" and pos: "0 < s"
    and le: "prior_variance M1 \<le> prior_variance M2"
  shows "\<exists>a b. log_prior32 M1 zs = Inr a \<and> log_prior32 M2 zs = Inr b
    \<and> elems32 a ! i = f32_mul (f32_round (- prior_variance M1)) (Fin s)
    \<and> elems32 b ! i = f32_mul (f32_round (- prior_variance M2)) (Fin s)
    \<and> f32_le (elems32 b ! i) (elems32 a ! i)"
proof -
  have "f32_le (f32_round (- prior_variance M2)) (f32_round (- prior_variance M1))"
    using le by (intro f32_round_mono) simp
  then have "f32_le (f32_mul (f32_round (- prior_variance M2)) (Fin s))
      (f32_mul (f32_round (- prior_variance M1)) (Fin s))"
    using pos by (rule f32_mul_mono_left)
  then show ?thesis
    using i s by (simp add: log_prior32_value [OF sz])
qed

theorem log_prior32_nonincreasing_witness:
  "shape32 \<lparr>shape32 = [1, 2], elems32 = [Fin (2561 / 2048), Fin 0]\<rparr> = [1, 2]
   \<and> (0::nat) < 1
   \<and> row_sumsq32 \<lparr>shape32 = [1, 2], elems32 = [Fin (2561 / 2048), Fin 0]\<rparr> 0
       = Fin (6558721 / 4194304)
   \<and> (0::real) < 6558721 / 4194304
   \<and> (1 / 100 :: real) \<le> 1 / 10
   \<and> (\<exists>a b.
        log_prior32 \<lparr>weight_dim = [1, 1], lik_variance = 1 / 100, prior_variance = 1 / 100,
            num_vars = 2\<rparr>
          \<lparr>shape32 = [1, 2], elems32 = [Fin (2561 / 2048), Fin 0]\<rparr> = Inr a
      \<and> log_prior32 \<lparr>weight_dim = [1, 1], lik_variance = 1 / 100, prior_variance = 1 / 10,
            num_vars = 2\<rparr>
          \<lparr>shape32 = [1, 2], elems32 = [Fin (2561 / 2048), Fin 0]\<rparr> = Inr b
      \<and> f32_le (elems32 b ! 0) (elems32 a ! 0))"
proof -
  let ?zs = "\<lparr>shape32 = [1, 2], elems32 = [Fin (2561 / 2048), Fin 0]\<rparr>"
  let ?M1 = "\<lparr>weight_dim = [1, 1], lik_variance = 1 / 100, prior_variance = 1 / 100, num_vars = 2\<rparr>"
  let ?M2 = "\<lparr>weight_dim = [1, 1], lik_variance = 1 / 100, prior_variance = 1 / 10, num_vars = 2\<rparr>"
  have p1: "shape32 ?zs = [1, 2]" by simp
  have p2: "(0::nat) < 1" by simp
  note p3 = row_sumsq32_example
  have p4: "(0::real) < 6558721 / 4194304" by simp
  have p5: "prior_variance ?M1 \<le> prior_variance ?M2" by simp
  have p5': "(1 / 100 :: real) \<le> 1 / 10" by simp
  from log_prior32_nonincreasing [OF p1 p2 p3 p4 p5]
  have "\<exists>a b. log_prior32 ?M1 ?zs = Inr a \<and> log_prior32 ?M2 ?zs = Inr b
      \<and> f32_le (elems32 b ! 0) (elems32 a ! 0)"
    by blast
  with p1 p2 p3 p4 p5' show ?thesis
    by (intro conjI)
qed

text \<open>
  Line 82 adds the log likelihood, which does not read the prior variance, to this term.
  With a log likelihood that is a number, the float32 sum is not greater under the prior
  variance that is not smaller.
\<close>

lemma f32_add_mono_right:
  assumes "f32_le p q"
  shows "f32_le (f32_add (Fin l) p) (f32_add (Fin l) q)"
proof (cases p)
  case NaN
  with assms show ?thesis by simp
next
  case NInf
  with assms show ?thesis
    by (cases q) (simp_all add: f32_round_def Let_def)
next
  case (Fin a)
  show ?thesis
  proof (cases q)
    case (Fin b)
    with \<open>p = Fin a\<close> assms have "l + a \<le> l + b" by simp
    then show ?thesis using Fin \<open>p = Fin a\<close> by (simp add: f32_round_mono)
  next
    case PInf
    with \<open>p = Fin a\<close> show ?thesis by (simp add: f32_round_def Let_def)
  qed (use \<open>p = Fin a\<close> assms in simp_all)
next
  case PInf
  with assms show ?thesis by (cases q) simp_all
qed

lemma log_joint32_nonincreasing:
  assumes sz: "shape32 zs = [B, V]" and i: "i < B"
    and s: "row_sumsq32 zs i = Fin s" and pos: "0 < s"
    and le: "prior_variance M1 \<le> prior_variance M2"
  shows "\<exists>a b. log_prior32 M1 zs = Inr a \<and> log_prior32 M2 zs = Inr b
    \<and> f32_le (f32_add (Fin l) (elems32 b ! i)) (f32_add (Fin l) (elems32 a ! i))"
proof -
  have "f32_le (f32_round (- prior_variance M2)) (f32_round (- prior_variance M1))"
    using le by (intro f32_round_mono) simp
  then have "f32_le (f32_mul (f32_round (- prior_variance M2)) (Fin s))
      (f32_mul (f32_round (- prior_variance M1)) (Fin s))"
    using pos by (rule f32_mul_mono_left)
  then have "f32_le (f32_add (Fin l) (f32_mul (f32_round (- prior_variance M2)) (Fin s)))
      (f32_add (Fin l) (f32_mul (f32_round (- prior_variance M1)) (Fin s)))"
    by (rule f32_add_mono_right)
  then show ?thesis
    using i s by (simp add: log_prior32_value [OF sz])
qed

text \<open>
  The term is not strictly decreasing. The prior variance \<open>5368709 / 2 ^ 29\<close> is the
  float32 nearest to 0.01 and \<open>10737419 / 2 ^ 30\<close> is the next float32 above it; for the
  weight vector \<open>(2561/2048, 0)\<close>, whose sum of squares is positive, both give the same
  log-prior term.
\<close>

theorem log_prior32_not_strict:
  "prior_variance \<lparr>weight_dim = [1, 1], lik_variance = 1 / 100,
       prior_variance = 5368709 / 536870912, num_vars = 2\<rparr>
     < prior_variance \<lparr>weight_dim = [1, 1], lik_variance = 1 / 100,
       prior_variance = 10737419 / 1073741824, num_vars = 2\<rparr>
   \<and> row_sumsq32 \<lparr>shape32 = [1, 2], elems32 = [Fin (2561 / 2048), Fin 0]\<rparr> 0
       = Fin (6558721 / 4194304)
   \<and> (0::real) < 6558721 / 4194304
   \<and> log_prior32 \<lparr>weight_dim = [1, 1], lik_variance = 1 / 100,
         prior_variance = 5368709 / 536870912, num_vars = 2\<rparr>
         \<lparr>shape32 = [1, 2], elems32 = [Fin (2561 / 2048), Fin 0]\<rparr>
       = Inr \<lparr>shape32 = [1], elems32 = [Fin (- (8395163 / 536870912))]\<rparr>
   \<and> log_prior32 \<lparr>weight_dim = [1, 1], lik_variance = 1 / 100,
         prior_variance = 10737419 / 1073741824, num_vars = 2\<rparr>
         \<lparr>shape32 = [1, 2], elems32 = [Fin (2561 / 2048), Fin 0]\<rparr>
       = Inr \<lparr>shape32 = [1], elems32 = [Fin (- (8395163 / 536870912))]\<rparr>
   \<and> \<not> f32_lt (Fin (- (8395163 / 536870912))) (Fin (- (8395163 / 536870912)))"
proof -
  let ?zs = "\<lparr>shape32 = [1, 2], elems32 = [Fin (2561 / 2048), Fin 0]\<rparr>"
  note r_s = f32_round_example
  have r_c1: "f32_round (- (5368709 / 536870912)) = Fin (- (5368709 / 536870912))"
    by (subst f32_round_eval [where e = "- 7" and n = 10737418])
      (simp_all add: rhe_def Let_def power_int_minus)
  have r_c2: "f32_round (- (10737419 / 1073741824)) = Fin (- (10737419 / 1073741824))"
    by (subst f32_round_eval [where e = "- 7" and n = 10737419])
      (simp_all add: rhe_def Let_def power_int_minus)
  have r_p1: "f32_round (- (5368709 / 536870912) * (6558721 / 4194304))
      = Fin (- (8395163 / 536870912))"
    by (subst f32_round_eval [where e = "- 6" and n = 8395163])
      (simp_all add: rhe_def Let_def power_int_minus)
  have r_p2: "f32_round (- (10737419 / 1073741824) * (6558721 / 4194304))
      = Fin (- (8395163 / 536870912))"
    by (subst f32_round_eval [where e = "- 6" and n = 8395163])
      (simp_all add: rhe_def Let_def power_int_minus)
  have p1: "f32_mul (f32_round (- (5368709 / 536870912))) (Fin (6558721 / 4194304))
      = Fin (- (8395163 / 536870912))"
    by (simp only: r_c1 f32_mul.simps r_p1)
  have p2: "f32_mul (f32_round (- (10737419 / 1073741824))) (Fin (6558721 / 4194304))
      = Fin (- (8395163 / 536870912))"
    by (simp only: r_c2 f32_mul.simps r_p2)
  have one: "[0..<1] = [0::nat]" by simp
  note rs = row_sumsq32_example
  have l1: "log_prior32 \<lparr>weight_dim = [1, 1], lik_variance = 1 / 100,
         prior_variance = 5368709 / 536870912, num_vars = 2\<rparr> ?zs
       = Inr \<lparr>shape32 = [1], elems32 = [Fin (- (8395163 / 536870912))]\<rparr>"
  proof -
    have "log_prior32 \<lparr>weight_dim = [1, 1], lik_variance = 1 / 100,
         prior_variance = 5368709 / 536870912, num_vars = 2\<rparr> ?zs
       = Inr \<lparr>shape32 = [1],
           elems32 = map (\<lambda>i. f32_mul (f32_round (- prior_variance \<lparr>weight_dim = [1, 1],
               lik_variance = 1 / 100, prior_variance = 5368709 / 536870912, num_vars = 2\<rparr>))
             (row_sumsq32 ?zs i)) [0..<1]\<rparr>"
      by (rule log_prior32_value) simp
    then show ?thesis
      by (simp only: one list.map rs LinearModel.select_convs p1)
  qed
  have l2: "log_prior32 \<lparr>weight_dim = [1, 1], lik_variance = 1 / 100,
         prior_variance = 10737419 / 1073741824, num_vars = 2\<rparr> ?zs
       = Inr \<lparr>shape32 = [1], elems32 = [Fin (- (8395163 / 536870912))]\<rparr>"
  proof -
    have "log_prior32 \<lparr>weight_dim = [1, 1], lik_variance = 1 / 100,
         prior_variance = 10737419 / 1073741824, num_vars = 2\<rparr> ?zs
       = Inr \<lparr>shape32 = [1],
           elems32 = map (\<lambda>i. f32_mul (f32_round (- prior_variance \<lparr>weight_dim = [1, 1],
               lik_variance = 1 / 100, prior_variance = 10737419 / 1073741824, num_vars = 2\<rparr>))
             (row_sumsq32 ?zs i)) [0..<1]\<rparr>"
      by (rule log_prior32_value) simp
    then show ?thesis
      by (simp only: one list.map rs LinearModel.select_convs p2)
  qed
  have lt: "\<not> f32_lt (Fin (- (8395163 / 536870912))) (Fin (- (8395163 / 536870912)))"
    by (simp add: f32_lt_def)
  have pv: "prior_variance \<lparr>weight_dim = [1, 1], lik_variance = 1 / 100,
       prior_variance = 5368709 / 536870912, num_vars = 2\<rparr>
     < prior_variance \<lparr>weight_dim = [1, 1], lik_variance = 1 / 100,
       prior_variance = 10737419 / 1073741824, num_vars = 2\<rparr>"
    by simp
  have ps: "(0::real) < 6558721 / 4194304" by simp
  from pv rs ps l1 l2 lt show ?thesis
    by (intro conjI)
qed

subsection \<open>The toy dataset\<close>

lemma map_append_halves:
  "map f [0..<h] @ map g [0..<h] = map (\<lambda>i. if i < h then f i else g (i - h)) [0..<h + h]"
proof -
  have "[0..<h + h] = [0..<h] @ [h..<h + h]"
    by (rule upt_add_eq_append) simp
  also have "[h..<h + h] = map (\<lambda>i. i + h) [0..<h]"
    by (rule map_add_upt [symmetric])
  finally have "[0..<h + h] = [0..<h] @ map (\<lambda>i. i + h) [0..<h]" .
  then show ?thesis by (simp add: o_def)
qed

lemma np_linspace_value:
  "0 \<le> num \<Longrightarrow> np_linspace a b num =
     Inr \<lparr>shape = [nat num], elems = map (spec_linspace a b (nat num)) [0..<nat num]\<rparr>"
  by (auto simp: np_linspace_def spec_linspace_def)

text \<open>
  Values in equal steps from \<open>a\<close> to \<open>b\<close>: the first is \<open>a\<close>, the last is \<open>b\<close>, and two
  neighbours differ by the same step.
\<close>

lemma spec_linspace_ends:
  assumes "2 \<le> h"
  shows "spec_linspace a b h 0 = a" and "spec_linspace a b h (h - 1) = b"
  using assms by (simp_all add: spec_linspace_def)

lemma spec_linspace_step:
  assumes "2 \<le> h"
  shows "spec_linspace a b h (Suc i) - spec_linspace a b h i = (b - a) / real (h - 1)"
proof -
  define c where "c = (b - a) / real (h - 1)"
  have "h \<noteq> 1" using assms by simp
  then have "spec_linspace a b h (Suc i) = a + real (Suc i) * c"
    and "spec_linspace a b h i = a + real i * c"
    by (simp_all only: spec_linspace_def c_def if_False)
  then have "spec_linspace a b h (Suc i) - spec_linspace a b h i = c"
    by (simp add: algebra_simps)
  then show ?thesis by (simp only: c_def)
qed

lemma build_toy_dataset_halves:
  assumes n0: "0 \<le> n" and s0: "0 \<le> noise_std"
    and nh: "nat n = h + h" and dh: "nat (n div 2) = h" and n2: "0 \<le> n div 2"
  shows "build_toy_dataset gauss n noise_std g =
    (Inr (Data \<lparr>shape = [h + h, 2],
               elems = row_major (h + h) 2 (spec_toy_entry gauss h noise_std)\<rparr>),
     \<lparr>seed = 0, drawn = h + h\<rparr>)"
proof -
  let ?X = "\<lparr>shape = [h + h], elems = map (spec_toy_input h) [0..<h + h]\<rparr>"
  let ?noise = "\<lparr>shape = [h + h], elems = map (\<lambda>j. 0 + noise_std * gauss 0 (0 + j)) [0..<h + h]\<rparr>"
  let ?y = "\<lparr>shape = [h + h],
      elems = map (\<lambda>p. (75 / 1000) * spec_toy_input h p + (0 + noise_std * gauss 0 p)) [0..<h + h]\<rparr>"
  have lo: "np_linspace 0 2 (n div 2) = Inr \<lparr>shape = [h], elems = map (spec_linspace 0 2 h) [0..<h]\<rparr>"
    and hi: "np_linspace 6 8 (n div 2) = Inr \<lparr>shape = [h], elems = map (spec_linspace 6 8 h) [0..<h]\<rparr>"
    using np_linspace_value [OF n2] by (simp_all add: dh)
  have cc: "np_concatenate \<lparr>shape = [h], elems = map (spec_linspace 0 2 h) [0..<h]\<rparr>
      \<lparr>shape = [h], elems = map (spec_linspace 6 8 h) [0..<h]\<rparr> = Inr ?X"
    by (simp add: np_concatenate_def map_append_halves spec_toy_input_def)
  have rv: "norm_rvs gauss 0 noise_std n (set_seed 0 g) = (Inr ?noise, \<lparr>seed = 0, drawn = h + h\<rparr>)"
    using n0 s0 by (simp add: norm_rvs_def set_seed_def nh)
  have ad: "np_add (tf_map (\<lambda>v. (75 / 1000) * v) ?X) ?noise = Inr ?y"
    using tf_binop_same [of "tf_map (\<lambda>v. (75 / 1000) * v) ?X" "[h + h]" ?noise "(+)"]
    by (simp add: np_add_def tf_map_def)
  have rx: "np_reshape (tf_map (\<lambda>v. (v - 4) / 4) ?X) [n, 1]
      = Inr \<lparr>shape = [h + h, 1], elems = map (\<lambda>i. (spec_toy_input h i - 4) / 4) [0..<h + h]\<rparr>"
    using n0 by (simp add: np_reshape_def tf_map_def nh o_def)
  have ry: "np_reshape ?y [n, 1] = Inr \<lparr>shape = [h + h, 1], elems = elems ?y\<rparr>"
    using n0 by (simp add: np_reshape_def nh)
  have ca: "np_concatenate_axis1 \<lparr>shape = [h + h, 1], elems = elems ?y\<rparr>
      \<lparr>shape = [h + h, 1], elems = map (\<lambda>i. (spec_toy_input h i - 4) / 4) [0..<h + h]\<rparr>
      = Inr \<lparr>shape = [h + h, 2], elems = row_major (h + h) 2 (spec_toy_entry gauss h noise_std)\<rparr>"
    apply (simp add: np_concatenate_axis1_def numeral_2_eq_2)
    apply (rule row_major_cong)
    apply (auto simp: spec_toy_entry_def)
    done
  show ?thesis
    by (simp only: build_toy_dataset_def Let_def lo hi cc rv ad rx ry ca sum.case prod.case)
qed

text \<open>
  Claim C4. For an even sample count \<open>n\<close> and a noise standard deviation the generator
  returns a table of \<open>n\<close> rows and two columns. With \<open>h = n / 2\<close>, the input of row \<open>i\<close>
  is the \<open>i\<close>-th of \<open>h\<close> values in equal steps from 0 to 2 followed by \<open>h\<close> values in
  equal steps from 6 to 8; column 0 is 0.075 times that input plus the \<open>i\<close>-th noise
  variate, and column 1 is the input rescaled to \<open>(x - 4) / 4\<close>.
\<close>

theorem build_toy_dataset_rows:
  assumes n0: "0 \<le> n" and ev: "even n" and s0: "0 \<le> noise_std"
  shows "fst (build_toy_dataset gauss n noise_std g) =
    Inr (Data \<lparr>shape = [nat n, 2],
              elems = row_major (nat n) 2 (spec_toy_entry gauss (nat n div 2) noise_std)\<rparr>)"
proof -
  have nh: "nat n = nat n div 2 + nat n div 2" and dh: "nat (n div 2) = nat n div 2"
    and n2: "0 \<le> n div 2"
    using n0 ev by (auto elim!: evenE simp: nat_mult_distrib)
  have "fst (build_toy_dataset gauss n noise_std g) =
    Inr (Data \<lparr>shape = [nat n div 2 + nat n div 2, 2],
              elems = row_major (nat n div 2 + nat n div 2) 2
                (spec_toy_entry gauss (nat n div 2) noise_std)\<rparr>)"
    by (simp only: build_toy_dataset_halves [OF n0 s0 nh dh n2] fst_conv)
  then show ?thesis
    by (simp only: nh [symmetric])
qed

theorem build_toy_dataset_rows_witness:
  "(0::int) \<le> 4 \<and> even (4::int) \<and> (0::real) \<le> 1 / 10
   \<and> fst (build_toy_dataset (\<lambda>s j. real j) 4 (1 / 10) \<lparr>seed = 42, drawn = 7\<rparr>) =
       Inr (Data \<lparr>shape = [4, 2],
                 elems = [0, - 1, 1 / 4, - (1 / 2), 13 / 20, 1 / 2, 9 / 10, 1]\<rparr>)"
proof -
  have r: "row_major 4 2 (spec_toy_entry (\<lambda>s j. real j) 2 (1 / 10))
      = [0, - 1, 1 / 4, - (1 / 2), 13 / 20, 1 / 2, 9 / 10, 1]"
    by code_simp
  have "fst (build_toy_dataset (\<lambda>s j. real j) 4 (1 / 10) \<lparr>seed = 42, drawn = 7\<rparr>) =
    Inr (Data \<lparr>shape = [nat 4, 2],
              elems = row_major (nat 4) 2 (spec_toy_entry (\<lambda>s j. real j) (nat 4 div 2) (1 / 10))\<rparr>)"
    by (rule build_toy_dataset_rows) simp_all
  then show ?thesis
    by (simp add: r)
qed

text \<open>
  Claim C9. Every call of the generator sets the seed of the global generator to 0 before
  it draws the noise: the result of a call and the state it leaves do not depend on the
  state the caller had set, and the seed the call leaves is 0.
\<close>

lemma norm_rvs_seed: "seed (snd (norm_rvs gauss loc scale count g)) = seed g"
  by (simp add: norm_rvs_def)

theorem build_toy_dataset_reseeds:
  "build_toy_dataset gauss n noise_std g1 = build_toy_dataset gauss n noise_std g2
   \<and> seed (snd (build_toy_dataset gauss n noise_std g1)) = 0"
proof -
  have "seed (snd (norm_rvs gauss 0 noise_std n (set_seed 0 g1))) = 0"
    by (simp add: norm_rvs_seed set_seed_def)
  then have "seed (snd (build_toy_dataset gauss n noise_std g1)) = 0"
    by (auto simp: build_toy_dataset_def Let_def set_seed_def split: sum.splits prod.splits)
  moreover have "build_toy_dataset gauss n noise_std g1 = build_toy_dataset gauss n noise_std g2"
    by (simp add: build_toy_dataset_def set_seed_def)
  ultimately show ?thesis by simp
qed

subsection \<open>The progress lines\<close>

text \<open>
  The conversion \<^verbatim>\<open>%d\<close> writes an integer in decimal digits, with a minus sign
  before a negative one.
\<close>

lemma digit_value_nth: "d < 10 \<Longrightarrow> digit_value (''0123456789'' ! d) = d"
proof -
  assume d: "d < 10"
  have "list_all (\<lambda>d. digit_value (''0123456789'' ! d) = d) [0..<10]"
    by code_simp
  with d show ?thesis
    by (simp add: list_all_iff)
qed

lemma decimal_value_digits: "decimal_value (digits n) = n"
proof (induction n rule: digits.induct)
  case (1 n)
  show ?case
  proof (cases "n < 10")
    case True
    then show ?thesis
      by (subst digits.simps) (simp add: decimal_value_def digit_value_nth)
  next
    case False
    then have "decimal_value (digits (n div 10)) = n div 10"
      by (rule "1.IH")
    moreover have "digit_value (''0123456789'' ! (n mod 10)) = n mod 10"
      by (rule digit_value_nth) simp
    ultimately have "decimal_value (digits (n div 10) @ [''0123456789'' ! (n mod 10)]) = n"
      by (simp add: decimal_value_def)
    with False show ?thesis
      by (subst digits.simps) simp
  qed
qed

lemma fmt_d_nonneg: "0 \<le> t \<Longrightarrow> decimal_value (fmt_d t) = nat t"
  by (simp add: fmt_d_def decimal_value_digits)

lemma fmt_d_neg:
  "t < 0 \<Longrightarrow> fmt_d t = CHR ''-'' # digits (nat (- t)) \<and> decimal_value (digits (nat (- t))) = nat (- t)"
  by (simp add: fmt_d_def decimal_value_digits)

text \<open>With a print period of 0 the test \<^verbatim>\<open>t % self.n_print\<close> raises.\<close>

lemma print_progress_zero_period:
  "n_print self = 0 \<Longrightarrow> print_progress fmt_2f self t losses out = Inl ZeroDivisionError"
  by (simp add: print_progress_def)

text \<open>
  Claim C7. With a print period other than 0, the lines that the calls of a run print are
  exactly one line for each iteration \<open>t\<close> that is a multiple of \<open>n_print\<close>, in the order
  of the iterations, and nothing for any other iteration. The line of iteration \<open>t\<close> is
  \<^verbatim>\<open>iter\<close>, the decimal digits of \<open>t\<close>, \<^verbatim>\<open>loss\<close>, and the mean of the loss
  estimates of that iteration (their sum divided by their number) to two decimal places.
\<close>

theorem print_all_trace:
  assumes "n_print self \<noteq> 0"
  shows "print_all fmt_2f self calls out =
    Inr (out @ map (\<lambda>(t, losses).
                     ''iter '' @ fmt_d t @ '' loss ''
                       @ (if losses = [] then ''nan''
                          else fmt_2f (sum_list losses / real (length losses))) @ '' '')
                 (filter (\<lambda>(t, losses). n_print self dvd t) calls))"
  using assms
proof (induction calls arbitrary: out)
  case Nil
  then show ?case by simp
next
  case (Cons c calls)
  obtain t losses where c: "c = (t, losses)" by (cases c)
  show ?case
    using Cons
    by (simp add: c print_progress_def progress_line_def np_mean_def dvd_eq_mod_eq_0)
qed

theorem print_all_trace_witness:
  "n_print \<lparr>n_iter = 10, n_print = 5\<rparr> \<noteq> 0
   \<and> print_all (\<lambda>r. if r = 3 / 2 then ''1.50'' else if r = 2 then ''2.00'' else ''other'')
         \<lparr>n_iter = 10, n_print = 5\<rparr>
         [(0, [1, 2]), (3, [2]), (5, [1, 3]), (7, [1]), (10, [2, 1])] []
       = Inr [''iter 0 loss 1.50 '', ''iter 5 loss 2.00 '', ''iter 10 loss 1.50 '']"
proof -
  let ?f = "\<lambda>r::real. if r = 3 / 2 then ''1.50'' else if r = 2 then ''2.00'' else ''other''"
  let ?S = "\<lparr>n_iter = 10, n_print = 5\<rparr>"
  let ?calls = "[(0, [1, 2]), (3, [2]), (5, [1, 3]), (7, [1]), (10, [2, 1])] :: (int \<times> real list) list"
  let ?line = "\<lambda>(t, losses). ''iter '' @ fmt_d t @ '' loss ''
      @ (if losses = [] then ''nan'' else ?f (sum_list losses / real (length losses))) @ '' ''"
  have l: "?line (0, [1, 2]) = ''iter 0 loss 1.50 ''"
    "?line (5, [1, 3]) = ''iter 5 loss 2.00 ''"
    "?line (10, [2, 1]) = ''iter 10 loss 1.50 ''"
    by code_simp+
  have np: "n_print ?S \<noteq> 0" by simp
  have f: "filter (\<lambda>(t, losses). n_print ?S dvd t) ?calls = [(0, [1, 2]), (5, [1, 3]), (10, [2, 1])]"
    by simp
  have "print_all ?f ?S ?calls [] =
      Inr ([] @ map ?line (filter (\<lambda>(t, losses). n_print ?S dvd t) ?calls))"
    using np by (rule print_all_trace)
  then have "print_all ?f ?S ?calls [] = Inr [?line (0, [1, 2]), ?line (5, [1, 3]), ?line (10, [2, 1])]"
    by (simp only: f list.map append_Nil)
  then have "print_all ?f ?S ?calls [] = Inr [''iter 0 loss 1.50 '', ''iter 5 loss 2.00 '', ''iter 10 loss 1.50 '']"
    by (simp only: l)
  with np show ?thesis
    by (intro conjI)
qed

end
